theory Spec2Isabelle
  imports Complex_Main "HOL-Library.AList" "HOL-Library.Log_Nat"
begin

section \<open>Numbers, vectors and placement transforms\<close>

text \<open>
  The repository is TypeScript on top of three.js.  A JavaScript \<open>number\<close> that carries a
  coordinate, a size or an angle is modelled as a real; counters and instance slots, which the
  code only ever increments from zero, are natural numbers.  Where the outcome of a comparison
  depends on the rounding of IEEE-754 doubles, a second, double-precision embedding of the same
  source function is given next to the exact one (section on the layer-offset calculator).

  A JavaScript \<open>Map\<close> iterates in insertion order, \<open>set\<close> on a present key keeps the key's
  place and replaces the value, and \<open>delete\<close> removes the entry: this is an association list
  with \<^const>\<open>AList.update\<close> and \<^const>\<open>AList.delete\<close>.
\<close>

record Vector2 =
  v2_x :: real
  v2_y :: real

record Vector3 =
  v3_x :: real
  v3_y :: real
  v3_z :: real

datatype layer = Top | Bottom

datatype pad_type = Rect | Circle

text \<open>
  \<open>Matrix4.compose(position, quaternion, scale)\<close> is a three.js library routine.  Every
  quaternion the stores build is a rotation about the Y axis, so the composed matrix is
  represented by its three arguments, the rotation by its angle.
\<close>

record Matrix4 =
  m_position :: Vector3
  m_rotation_y :: real
  m_scale :: Vector3

definition compose :: "Vector3 \<Rightarrow> real \<Rightarrow> Vector3 \<Rightarrow> Matrix4" where
  "compose p r sc = \<lparr>m_position = p, m_rotation_y = r, m_scale = sc\<rparr>"

definition identity4 :: Matrix4 where
  "identity4 = compose \<lparr>v3_x = 0, v3_y = 0, v3_z = 0\<rparr> 0 \<lparr>v3_x = 1, v3_y = 1, v3_z = 1\<rparr>"

text \<open>
  \<open>THREE.InstancedMesh\<close>: a buffer of \<open>im_capacity\<close> matrices (a \<open>Float32Array\<close>, so a
  write past its end is dropped), the dirty flag of that buffer and the draw count.
\<close>

record InstancedMesh =
  im_capacity :: nat
  im_matrices :: "nat \<Rightarrow> Matrix4 option"
  im_needsUpdate :: bool
  im_count :: nat

definition new_InstancedMesh :: "nat \<Rightarrow> InstancedMesh" where
  "new_InstancedMesh n =
     \<lparr>im_capacity = n, im_matrices = (\<lambda>_. None), im_needsUpdate = False, im_count = n\<rparr>"

definition setMatrixAt :: "nat \<Rightarrow> Matrix4 \<Rightarrow> InstancedMesh \<Rightarrow> InstancedMesh" where
  "setMatrixAt i m mesh =
     (if i < im_capacity mesh then mesh\<lparr>im_matrices := (im_matrices mesh)(i \<mapsto> m)\<rparr> else mesh)"

section \<open>CopperLayerManager (layer-offset calculator)\<close>

record CopperLayerManager =
  boardThickness :: real

definition COPPER_OFFSET_MM :: real where
  "COPPER_OFFSET_MM = 0.01"

definition getTopCopperZ :: "CopperLayerManager \<Rightarrow> real" where
  "getTopCopperZ clm = (boardThickness clm / 2) + COPPER_OFFSET_MM"

definition getBottomCopperZ :: "CopperLayerManager \<Rightarrow> real" where
  "getBottomCopperZ clm = - (boardThickness clm / 2) - COPPER_OFFSET_MM"


definition validateZSeparation :: "CopperLayerManager \<Rightarrow> bool" where
  "validateZSeparation clm =
     (let topZ = getTopCopperZ clm;
          boardTop = boardThickness clm / 2;
          separation = \<bar>topZ - boardTop\<bar>
      in separation \<ge> COPPER_OFFSET_MM)"

section \<open>SMDPads (instanced pad store)\<close>

record SMDDPadData =
  pad_id :: string
  pad_type :: pad_type
  pad_position :: Vector3
  pad_size :: Vector2
  pad_rotation :: real
  pad_layer :: layer

record SMDPads =
  padData :: "(string \<times> SMDDPadData) list"
  pads_maxInstances :: nat
  pads_instanceCount :: nat
  pads_matrix :: Matrix4
  pads_instancedMesh :: InstancedMesh
  pads_edgeMesh :: InstancedMesh

definition new_SMDPads :: "nat \<Rightarrow> SMDPads" where
  "new_SMDPads maxInstances =
     \<lparr>padData = [], pads_maxInstances = maxInstances, pads_instanceCount = 0,
      pads_matrix = identity4,
      pads_instancedMesh = new_InstancedMesh maxInstances,
      pads_edgeMesh = new_InstancedMesh maxInstances\<rparr>"

definition pad_transform :: "CopperLayerManager \<Rightarrow> SMDDPadData \<Rightarrow> Matrix4" where
  "pad_transform clm p =
     (let targetZ = (if pad_layer p = Top then getTopCopperZ clm else getBottomCopperZ clm);
          tempVector = \<lparr>v3_x = v3_x (pad_position p), v3_y = targetZ, v3_z = v3_z (pad_position p)\<rparr>;
          scale = \<lparr>v3_x = v2_x (pad_size p), v3_y = 1, v3_z = v2_y (pad_size p)\<rparr>
      in compose tempVector (pad_rotation p) scale)"

definition updateInstanceMatrix :: "CopperLayerManager \<Rightarrow> SMDDPadData \<Rightarrow> nat \<Rightarrow> SMDPads \<Rightarrow> SMDPads" where
  "updateInstanceMatrix clm p instanceId s =
     (let m = pad_transform clm p
      in s\<lparr>pads_matrix := m,
           pads_instancedMesh := setMatrixAt instanceId m (pads_instancedMesh s)\<rparr>)"

definition addPad :: "CopperLayerManager \<Rightarrow> SMDDPadData \<Rightarrow> SMDPads \<Rightarrow> bool \<times> SMDPads" where
  "addPad clm p s =
     (if pads_instanceCount s \<ge> pads_maxInstances s then (False, s)
      else
        let s1 = s\<lparr>padData := AList.update (pad_id p) p (padData s)\<rparr>;
            s2 = updateInstanceMatrix clm p (pads_instanceCount s1) s1;
            s3 = s2\<lparr>pads_instanceCount := pads_instanceCount s2 + 1\<rparr>;
            s4 = s3\<lparr>pads_instancedMesh :=
                      (pads_instancedMesh s3)\<lparr>im_needsUpdate := True,
                                              im_count := pads_instanceCount s3\<rparr>\<rparr>;
            s5 = s4\<lparr>pads_edgeMesh :=
                      (setMatrixAt (pads_instanceCount s4 - 1) (pads_matrix s4) (pads_edgeMesh s4))
                        \<lparr>im_needsUpdate := True, im_count := pads_instanceCount s4\<rparr>\<rparr>
        in (True, s5))"

text \<open>\<open>padsArray.forEach(padData => this.addPad(padData))\<close>, keeping each call's result.\<close>

fun addPad_each :: "CopperLayerManager \<Rightarrow> SMDDPadData list \<Rightarrow> SMDPads \<Rightarrow> bool list \<times> SMDPads" where
  "addPad_each clm [] s = ([], s)"
| "addPad_each clm (p # ps) s =
     (let (r, s1) = addPad clm p s; (rs, s2) = addPad_each clm ps s1 in (r # rs, s2))"

definition addPads :: "CopperLayerManager \<Rightarrow> SMDDPadData list \<Rightarrow> SMDPads \<Rightarrow> nat \<times> SMDPads" where
  "addPads clm padsArray s =
     (let (rs, s1) = addPad_each clm padsArray s in (length (filter id rs), s1))"

definition rebuildInstances :: "CopperLayerManager \<Rightarrow> SMDPads \<Rightarrow> SMDPads" where
  "rebuildInstances clm s =
     (let s1 = s\<lparr>pads_instanceCount := 0,
                 pads_instancedMesh := (pads_instancedMesh s)\<lparr>im_count := 0\<rparr>,
                 pads_edgeMesh := (pads_edgeMesh s)\<lparr>im_count := 0\<rparr>\<rparr>;
          remainingPads = map snd (padData s1);
          s2 = s1\<lparr>padData := []\<rparr>
      in snd (addPad_each clm remainingPads s2))"

definition removePad :: "CopperLayerManager \<Rightarrow> string \<Rightarrow> SMDPads \<Rightarrow> bool \<times> SMDPads" where
  "removePad clm padId s =
     (if map_of (padData s) padId = None then (False, s)
      else (True, rebuildInstances clm (s\<lparr>padData := AList.delete padId (padData s)\<rparr>)))"

definition getPad :: "string \<Rightarrow> SMDPads \<Rightarrow> SMDDPadData option" where
  "getPad padId s = map_of (padData s) padId"


text \<open>\<open>Array.from(this.padData.keys()).indexOf(padId)\<close>; \<open>None\<close> stands for \<open>-1\<close>.\<close>

fun indexOf :: "'a list \<Rightarrow> 'a \<Rightarrow> nat option" where
  "indexOf [] x = None"
| "indexOf (y # ys) x = (if y = x then Some 0 else map_option Suc (indexOf ys x))"

definition getInstanceId :: "string \<Rightarrow> SMDPads \<Rightarrow> nat option" where
  "getInstanceId padId s = indexOf (map fst (padData s)) padId"

text \<open>
  \<open>updatePadPosition\<close> and \<open>updatePadSize\<close> change the record held in the map and recompute
  the matrix of its slot in the main mesh.
\<close>

definition updatePadPosition ::
  "CopperLayerManager \<Rightarrow> string \<Rightarrow> Vector3 \<Rightarrow> SMDPads \<Rightarrow> bool \<times> SMDPads" where
  "updatePadPosition clm padId newPosition s =
     (case map_of (padData s) padId of
        None \<Rightarrow> (False, s)
      | Some pd \<Rightarrow>
          (let pd1 = pd\<lparr>pad_position := newPosition\<rparr>;
               s1 = s\<lparr>padData := AList.update padId pd1 (padData s)\<rparr>
           in case getInstanceId padId s1 of
                None \<Rightarrow> (False, s1)
              | Some instanceId \<Rightarrow>
                  (let s2 = updateInstanceMatrix clm pd1 instanceId s1
                   in (True, s2\<lparr>pads_instancedMesh :=
                                  (pads_instancedMesh s2)\<lparr>im_needsUpdate := True\<rparr>\<rparr>))))"

definition updatePadSize ::
  "CopperLayerManager \<Rightarrow> string \<Rightarrow> Vector2 \<Rightarrow> SMDPads \<Rightarrow> bool \<times> SMDPads" where
  "updatePadSize clm padId newSize s =
     (case map_of (padData s) padId of
        None \<Rightarrow> (False, s)
      | Some pd \<Rightarrow>
          (let pd1 = pd\<lparr>pad_size := newSize\<rparr>;
               s1 = s\<lparr>padData := AList.update padId pd1 (padData s)\<rparr>
           in case getInstanceId padId s1 of
                None \<Rightarrow> (False, s1)
              | Some instanceId \<Rightarrow>
                  (let s2 = updateInstanceMatrix clm pd1 instanceId s1
                   in (True, s2\<lparr>pads_instancedMesh :=
                                  (pads_instancedMesh s2)\<lparr>im_needsUpdate := True\<rparr>\<rparr>))))"

definition pads_clear :: "SMDPads \<Rightarrow> SMDPads" where
  "pads_clear s =
     s\<lparr>padData := [], pads_instanceCount := 0,
       pads_instancedMesh := (pads_instancedMesh s)\<lparr>im_count := 0, im_needsUpdate := True\<rparr>,
       pads_edgeMesh := (pads_edgeMesh s)\<lparr>im_count := 0, im_needsUpdate := True\<rparr>\<rparr>"

section \<open>ThroughHoles (instanced hole store) and ThroughHoleManager\<close>

record ThroughHoleData =
  hole_id :: string
  hole_position :: Vector3
  hole_diameter :: real
  hole_depth :: real

record ThroughHoles =
  holeData :: "(string \<times> ThroughHoleData) list"
  holes_maxInstances :: nat
  holes_instanceCount :: nat
  holes_matrix :: Matrix4
  holes_instancedMesh :: InstancedMesh
  holes_edgeMesh :: InstancedMesh

definition new_ThroughHoles :: "nat \<Rightarrow> ThroughHoles" where
  "new_ThroughHoles maxInstances =
     \<lparr>holeData = [], holes_maxInstances = maxInstances, holes_instanceCount = 0,
      holes_matrix = identity4,
      holes_instancedMesh = new_InstancedMesh maxInstances,
      holes_edgeMesh = new_InstancedMesh maxInstances\<rparr>"

definition hole_transform :: "ThroughHoleData \<Rightarrow> Matrix4" where
  "hole_transform d =
     (let position = \<lparr>v3_x = v3_x (hole_position d), v3_y = 0, v3_z = v3_z (hole_position d)\<rparr>;
          scale = \<lparr>v3_x = hole_diameter d, v3_y = hole_depth d, v3_z = hole_diameter d\<rparr>
      in compose position 0 scale)"

definition addHole :: "ThroughHoleData \<Rightarrow> ThroughHoles \<Rightarrow> bool \<times> ThroughHoles" where
  "addHole d s =
     (if holes_instanceCount s \<ge> holes_maxInstances s then (False, s)
      else
        let s1 = s\<lparr>holeData := AList.update (hole_id d) d (holeData s)\<rparr>;
            s2 = s1\<lparr>holes_matrix := hole_transform d\<rparr>;
            s3 = s2\<lparr>holes_instancedMesh :=
                      setMatrixAt (holes_instanceCount s2) (holes_matrix s2) (holes_instancedMesh s2),
                    holes_edgeMesh :=
                      setMatrixAt (holes_instanceCount s2) (holes_matrix s2) (holes_edgeMesh s2)\<rparr>;
            s4 = s3\<lparr>holes_instanceCount := holes_instanceCount s3 + 1\<rparr>;
            s5 = s4\<lparr>holes_instancedMesh :=
                      (holes_instancedMesh s4)\<lparr>im_needsUpdate := True,
                                               im_count := holes_instanceCount s4\<rparr>,
                    holes_edgeMesh :=
                      (holes_edgeMesh s4)\<lparr>im_needsUpdate := True,
                                           im_count := holes_instanceCount s4\<rparr>\<rparr>
        in (True, s5))"

fun addHole_each :: "ThroughHoleData list \<Rightarrow> ThroughHoles \<Rightarrow> bool list \<times> ThroughHoles" where
  "addHole_each [] s = ([], s)"
| "addHole_each (d # ds) s =
     (let (r, s1) = addHole d s; (rs, s2) = addHole_each ds s1 in (r # rs, s2))"

definition holes_clear :: "ThroughHoles \<Rightarrow> ThroughHoles" where
  "holes_clear s =
     s\<lparr>holeData := [], holes_instanceCount := 0,
       holes_instancedMesh := (holes_instancedMesh s)\<lparr>im_count := 0, im_needsUpdate := True\<rparr>\<rparr>"



section \<open>FlatTraces (instanced trace-segment store)\<close>

record TraceData =
  trace_id :: string
  trace_points :: "Vector2 list"
  trace_width :: real
  trace_layer :: layer

record TraceSegment =
  seg_startPoint :: Vector2
  seg_endPoint :: Vector2
  seg_width :: real
  seg_angle :: real
  seg_length :: real
  seg_instanceId :: nat

record FlatTraces =
  traces :: "(string \<times> TraceData) list"
  traceSegments :: "(string \<times> TraceSegment list) list"
  traces_maxInstances :: nat
  traces_instanceCount :: nat
  traces_instancedMesh :: InstancedMesh

definition new_FlatTraces :: "nat \<Rightarrow> FlatTraces" where
  "new_FlatTraces maxInstances =
     \<lparr>traces = [], traceSegments = [], traces_maxInstances = maxInstances,
      traces_instanceCount = 0, traces_instancedMesh = new_InstancedMesh maxInstances\<rparr>"

text \<open>
  \<open>Math.atan2(y, x)\<close> on reals: the angle of the point \<open>(x, y)\<close> in \<open>(-\<pi>, \<pi>]\<close>, and \<open>0\<close> at
  the origin.
\<close>

definition atan2 :: "real \<Rightarrow> real \<Rightarrow> real" where
  "atan2 y x =
     (if x > 0 then arctan (y / x)
      else if x < 0 then (if y \<ge> 0 then arctan (y / x) + pi else arctan (y / x) - pi)
      else if y > 0 then pi / 2
      else if y < 0 then - (pi / 2)
      else 0)"

definition make_segment :: "TraceData \<Rightarrow> Vector2 \<Rightarrow> Vector2 \<Rightarrow> nat \<Rightarrow> TraceSegment" where
  "make_segment t p1 p2 instanceId =
     (let dx = v2_x p2 - v2_x p1;
          dz = v2_y p2 - v2_y p1;
          len = sqrt (dx * dx + dz * dz);
          angle = atan2 dz dx
      in \<lparr>seg_startPoint = p1, seg_endPoint = p2, seg_width = trace_width t,
          seg_angle = angle, seg_length = len, seg_instanceId = instanceId\<rparr>)"

definition segment_transform :: "TraceData \<Rightarrow> TraceSegment \<Rightarrow> Matrix4" where
  "segment_transform t sg =
     (let p1 = seg_startPoint sg; p2 = seg_endPoint sg;
          position = \<lparr>v3_x = (v2_x p1 + v2_x p2) / 2,
                      v3_y = (if trace_layer t = Top then 0.01 else - 0.01),
                      v3_z = (v2_y p1 + v2_y p2) / 2\<rparr>;
          scale = \<lparr>v3_x = seg_length sg, v3_y = 1.0, v3_z = trace_width t\<rparr>
      in compose position (- seg_angle sg) scale)"

text \<open>
  The body of \<open>for (let i = 0; i < points.length - 1; i++)\<close>: the list argument is the
  waypoints from index \<open>i\<close> on, so the loop runs while two of them are left and stops at once
  when the store is full.
\<close>

fun addTrace_loop ::
  "TraceData \<Rightarrow> Vector2 list \<Rightarrow> FlatTraces \<Rightarrow> TraceSegment list \<Rightarrow> FlatTraces \<times> TraceSegment list" where
  "addTrace_loop t (p1 # p2 # ps) s segments =
     (if traces_instanceCount s \<ge> traces_maxInstances s then (s, segments)
      else
        let instanceId = traces_instanceCount s;
            s1 = s\<lparr>traces_instanceCount := traces_instanceCount s + 1\<rparr>;
            segment = make_segment t p1 p2 instanceId;
            s2 = s1\<lparr>traces_instancedMesh :=
                      setMatrixAt instanceId (segment_transform t segment) (traces_instancedMesh s1)\<rparr>
        in addTrace_loop t (p2 # ps) s2 (segments @ [segment]))"
| "addTrace_loop t ps s segments = (s, segments)"

definition addTrace :: "TraceData \<Rightarrow> FlatTraces \<Rightarrow> bool \<times> FlatTraces" where
  "addTrace t s =
     (let (s1, segments) = addTrace_loop t (trace_points t) s [];
          s2 = s1\<lparr>traces := AList.update (trace_id t) t (traces s1),
                  traceSegments := AList.update (trace_id t) segments (traceSegments s1)\<rparr>;
          s3 = s2\<lparr>traces_instancedMesh :=
                    (traces_instancedMesh s2)\<lparr>im_needsUpdate := True,
                                              im_count := traces_instanceCount s2\<rparr>\<rparr>
      in (True, s3))"






section \<open>Board and the Serialization boundary\<close>























section \<open>The validation gate\<close>

text \<open>
  \<open>validateBoardData\<close> receives the result of \<open>JSON.parse\<close>, a value of type \<open>unknown\<close>.
  An object is the list of its own properties (keys unique after parsing); a property that is
  absent reads as \<open>undefined\<close>, here \<open>None\<close>.  None of the keys the validator reads exists on
  an array, a string, a number or a boolean.
\<close>

datatype json =
    JNull
  | JBool bool
  | JNum real
  | JStr string
  | JArr "json list"
  | JObj "(string \<times> json) list"

fun truthy :: "json \<Rightarrow> bool" where
  "truthy JNull = False"
| "truthy (JBool b) = b"
| "truthy (JNum n) = (n \<noteq> 0)"
| "truthy (JStr s) = (s \<noteq> [])"
| "truthy (JArr _) = True"
| "truthy (JObj _) = True"

text \<open>\<open>typeof v === 'object'\<close> holds for \<open>null\<close>, arrays and objects.\<close>

fun typeof_object :: "json \<Rightarrow> bool" where
  "typeof_object JNull = True"
| "typeof_object (JArr _) = True"
| "typeof_object (JObj _) = True"
| "typeof_object _ = False"

fun get_prop :: "json \<Rightarrow> string \<Rightarrow> json option" where
  "get_prop (JObj kvs) k = map_of kvs k"
| "get_prop _ k = None"

fun typeof_number :: "json option \<Rightarrow> bool" where
  "typeof_number (Some (JNum _)) = True"
| "typeof_number _ = False"

fun typeof_string :: "json option \<Rightarrow> bool" where
  "typeof_string (Some (JStr _)) = True"
| "typeof_string _ = False"

definition startsWith :: "string \<Rightarrow> string \<Rightarrow> bool" where
  "startsWith s pre \<longleftrightarrow> take (length pre) s = pre"

definition valid_layer :: "json option \<Rightarrow> bool" where
  "valid_layer l \<longleftrightarrow>
     \<not> (\<not> typeof_string l \<or> (l \<noteq> Some (JStr ''top'') \<and> l \<noteq> Some (JStr ''bottom'')))"

definition validateComponentData :: "json \<Rightarrow> bool" where
  "validateComponentData data =
     (if \<not> truthy data \<or> \<not> typeof_object data then False
      else
        case (get_prop data ''id'', get_prop data ''type'', get_prop data ''pos'') of
          (Some (JStr ident), Some (JStr ty), Some (JArr pos)) \<Rightarrow>
            if length pos \<noteq> 3 then False
            else if \<not> list_all (\<lambda>p. typeof_number (Some p)) pos then False
            else if startsWith ty ''smd_'' then
              (if \<not> valid_layer (get_prop data ''layer'') then False
               else case get_prop data ''size'' of
                      Some (JArr sz) \<Rightarrow>
                        if length sz \<noteq> 2 then False
                        else if \<not> list_all (\<lambda>s. typeof_number (Some s)) sz then False
                        else True
                    | _ \<Rightarrow> False)
            else if ty = ''path'' then
              (if \<not> valid_layer (get_prop data ''layer'') then False
               else if \<not> typeof_number (get_prop data ''width'') then False
               else case get_prop data ''points'' of
                      Some (JArr pts) \<Rightarrow> if length pts < 2 then False else True
                    | _ \<Rightarrow> False)
            else if ty = ''drill'' then
              (if \<not> typeof_number (get_prop data ''diameter'') then False else True)
            else False
        | _ \<Rightarrow> False)"

definition validateBoardData :: "json \<Rightarrow> bool" where
  "validateBoardData data =
     (if \<not> truthy data \<or> \<not> typeof_object data then False
      else
        case get_prop data ''board'' of
          None \<Rightarrow> False
        | Some b \<Rightarrow>
            if \<not> truthy b \<or> \<not> typeof_object b then False
            else if \<not> typeof_number (get_prop b ''width'') \<or>
                    \<not> typeof_number (get_prop b ''height'') \<or>
                    \<not> typeof_number (get_prop b ''thickness'') then False
            else
              (case get_prop data ''components'' of
                 Some (JArr components) \<Rightarrow> list_all validateComponentData components
               | _ \<Rightarrow> False))"

text \<open>
  The rule for the points of a path as the document format states it, \<open>points:[[x,z],...]\<close>
  with at least two entries: every entry is an array of exactly two numbers.
\<close>

fun two_number_point :: "json \<Rightarrow> bool" where
  "two_number_point (JArr [JNum x, JNum z]) = True"
| "two_number_point _ = False"

definition path_points_rule :: "json \<Rightarrow> bool" where
  "path_points_rule component =
     (case get_prop component ''points'' of
        Some (JArr pts) \<Rightarrow> length pts \<ge> 2 \<and> list_all two_number_point pts
      | _ \<Rightarrow> False)"

section \<open>The resource ledger\<close>

text \<open>
  GPU resources are distinguished by identity; a handle is a number.  A JavaScript \<open>Set\<close>
  keeps insertion order and ignores the \<open>add\<close> of a member: a duplicate-free list.
  \<open>dispose()\<close> has no result; the calls are recorded, in order, in a log.
\<close>

datatype mesh_material = NoMaterial | SingleMaterial nat | MaterialArray "nat list"

record Mesh =
  mesh_handle :: nat
  mesh_geometry :: nat
  mesh_material :: mesh_material


record ResourceTracker =
  rt_geometries :: "nat list"
  rt_materials :: "mesh_material list"
  rt_meshes :: "Mesh list"
  rt_textures :: "nat list"

datatype disposal = DisposeGeometry nat | DisposeMaterial nat | DisposeTexture nat

definition empty_tracker :: ResourceTracker where
  "empty_tracker = \<lparr>rt_geometries = [], rt_materials = [], rt_meshes = [], rt_textures = []\<rparr>"

definition set_add :: "'a \<Rightarrow> 'a list \<Rightarrow> 'a list" where
  "set_add x xs = (if x \<in> set xs then xs else xs @ [x])"





text \<open>
  \<open>disposeResources\<close>.  A member of the material set that is an array has no \<open>dispose\<close>
  method, so the call on it throws and the function ends there; \<open>Threw\<close> carries the ledger
  and the log as they are at that moment.
\<close>

datatype 'a outcome = Returned 'a | Threw 'a

fun dispose_materials :: "mesh_material list \<Rightarrow> disposal list \<Rightarrow> disposal list outcome" where
  "dispose_materials [] calls = Returned calls"
| "dispose_materials (SingleMaterial m # ms) calls = dispose_materials ms (calls @ [DisposeMaterial m])"
| "dispose_materials (_ # ms) calls = Threw calls"

definition dispose_mesh :: "Mesh \<Rightarrow> disposal list \<Rightarrow> disposal list" where
  "dispose_mesh mesh calls =
     (let calls1 = calls @ [DisposeGeometry (mesh_geometry mesh)]
      in case mesh_material mesh of
           NoMaterial \<Rightarrow> calls1
         | MaterialArray ms \<Rightarrow> calls1 @ map DisposeMaterial ms
         | SingleMaterial m \<Rightarrow> calls1 @ [DisposeMaterial m])"

definition disposeResources ::
  "ResourceTracker \<times> disposal list \<Rightarrow> (ResourceTracker \<times> disposal list) outcome" where
  "disposeResources st =
     (case st of (t, calls) \<Rightarrow>
        let calls1 = calls @ map DisposeGeometry (rt_geometries t);
            t1 = t\<lparr>rt_geometries := []\<rparr>
        in case dispose_materials (rt_materials t1) calls1 of
             Threw calls2 \<Rightarrow> Threw (t1, calls2)
           | Returned calls2 \<Rightarrow>
               let t2 = t1\<lparr>rt_materials := []\<rparr>;
                   calls3 = fold dispose_mesh (rt_meshes t2) calls2;
                   t3 = t2\<lparr>rt_meshes := []\<rparr>;
                   calls4 = calls3 @ map DisposeTexture (rt_textures t3);
                   t4 = t3\<lparr>rt_textures := []\<rparr>
               in Returned (t4, calls4))"

definition getResourceStats :: "ResourceTracker \<Rightarrow> nat \<times> nat \<times> nat \<times> nat" where
  "getResourceStats t =
     (length (rt_geometries t), length (rt_materials t), length (rt_meshes t), length (rt_textures t))"

section \<open>Interaction (hover state machine) and the hover test of InstancedHoverShader\<close>

text \<open>
  A material is shared by reference between the object that owns it and the interaction code
  that writes its uniforms, so materials live in a store indexed by handle and an object holds
  the handle.  \<open>mat_uniforms = None\<close> is a material without a \<open>uniforms\<close> property (a
  \<open>MeshBasicMaterial\<close>, say); inside, \<open>None\<close> is a uniform the material does not declare.
\<close>

record Uniforms =
  uHovered :: "bool option"
  uHoveredInstanceId :: "real option"

record Material =
  mat_uniforms :: "Uniforms option"

datatype object_class = InstancedMeshClass | MeshClass | Object3DClass

record Object3D =
  obj_class :: object_class
  obj_material :: "nat option"

datatype cursor_style = CursorInitial | CursorPointer | CursorDefault

record Interaction =
  hoveredObject :: "nat option"
  hoveredInstanceId :: "nat option"
  materials :: "nat \<Rightarrow> Material"
  cursor :: cursor_style


definition updateInstancedMeshHover :: "Object3D \<Rightarrow> nat \<Rightarrow> bool \<Rightarrow> Interaction \<Rightarrow> Interaction" where
  "updateInstancedMeshHover instancedMesh instanceId hovered s =
     (case obj_material instancedMesh of
        None \<Rightarrow> s
      | Some h \<Rightarrow>
          (case mat_uniforms (materials s h) of
             None \<Rightarrow> s
           | Some u \<Rightarrow>
               let u1 = (if uHovered u \<noteq> None then u\<lparr>uHovered := Some hovered\<rparr> else u);
                   u2 = (if uHoveredInstanceId u1 \<noteq> None
                         then u1\<lparr>uHoveredInstanceId := Some (if hovered then real instanceId else - 1)\<rparr>
                         else u1)
               in s\<lparr>materials := (materials s)(h := \<lparr>mat_uniforms = Some u2\<rparr>)\<rparr>))"

text \<open>
  \<open>updateShaderUniform(object, 'uHovered', value)\<close> reads \<open>material.uniforms[uniformName]\<close>
  without testing \<open>material.uniforms\<close>: on a material that has none, the read throws.
\<close>

definition updateShaderUniform :: "Object3D \<Rightarrow> bool \<Rightarrow> Interaction \<Rightarrow> Interaction outcome" where
  "updateShaderUniform object v s =
     (case obj_material object of
        None \<Rightarrow> Returned s
      | Some h \<Rightarrow>
          (case mat_uniforms (materials s h) of
             None \<Rightarrow> Threw s
           | Some u \<Rightarrow>
               (if uHovered u \<noteq> None
                then Returned (s\<lparr>materials :=
                                  (materials s)(h := \<lparr>mat_uniforms = Some (u\<lparr>uHovered := Some v\<rparr>)\<rparr>)\<rparr>)
                else Returned s)))"

definition updateInstanceHoverState :: "Object3D \<Rightarrow> nat \<Rightarrow> bool \<Rightarrow> Interaction \<Rightarrow> Interaction outcome" where
  "updateInstanceHoverState object instanceId hovered s =
     (case obj_class object of
        InstancedMeshClass \<Rightarrow> Returned (updateInstancedMeshHover object instanceId hovered s)
      | MeshClass \<Rightarrow> updateShaderUniform object hovered s
      | Object3DClass \<Rightarrow> Returned s)"








section \<open>The layer-offset calculator in double precision\<close>

text \<open>
  \<open>validateZSeparation\<close> compares a difference of two computed numbers with a constant, and
  what it returns depends on how the additions round.  A finite double is a rational; an
  arithmetic operation of IEEE 754 is the exact operation followed by rounding to the nearest
  double, ties to the even significand.  \<open>fl\<close> is that rounding for a result in the normal
  range (53-bit significand; no overflow, no subnormal numbers), which is where board
  thicknesses and the offset lie.  A decimal literal of the source denotes the double nearest
  to it: \<open>0.01\<close> is \<open>fl (1 / 100)\<close>.
\<close>

definition pow2 :: "int \<Rightarrow> rat" where
  "pow2 e = (if e \<ge> 0 then 2 ^ nat e else 1 / 2 ^ nat (- e))"

text \<open>The exponent \<open>e\<close> with \<open>2 ^ e \<le> x < 2 ^ (e + 1)\<close>, for \<open>x > 0\<close>.\<close>

definition exponent_of :: "rat \<Rightarrow> int" where
  "exponent_of x =
     (case quotient_of x of (p, q) \<Rightarrow>
        let e0 = bitlen p - bitlen q
        in if pow2 e0 \<le> x then e0 else e0 - 1)"

definition round_half_even :: "rat \<Rightarrow> int" where
  "round_half_even x =
     (let f = \<lfloor>x\<rfloor>; d = x - of_int f
      in if d < 1 / 2 then f else if d > 1 / 2 then f + 1 else if even f then f else f + 1)"

definition fl :: "rat \<Rightarrow> rat" where
  "fl x =
     (if x = 0 then 0
      else let a = \<bar>x\<bar>; e = exponent_of a; ulp = pow2 (e - 52); n = round_half_even (a / ulp)
           in sgn x * of_int n * ulp)"

record CopperLayerManager_f64 =
  boardThickness_f64 :: rat

definition COPPER_OFFSET_MM_f64 :: rat where
  "COPPER_OFFSET_MM_f64 = fl (1 / 100)"

definition getTopCopperZ_f64 :: "CopperLayerManager_f64 \<Rightarrow> rat" where
  "getTopCopperZ_f64 clm = fl (fl (boardThickness_f64 clm / 2) + COPPER_OFFSET_MM_f64)"

definition getBottomCopperZ_f64 :: "CopperLayerManager_f64 \<Rightarrow> rat" where
  "getBottomCopperZ_f64 clm = fl (- fl (boardThickness_f64 clm / 2) - COPPER_OFFSET_MM_f64)"

definition validateZSeparation_f64 :: "CopperLayerManager_f64 \<Rightarrow> bool" where
  "validateZSeparation_f64 clm =
     (let topZ = getTopCopperZ_f64 clm;
          boardTop = fl (boardThickness_f64 clm / 2);
          separation = \<bar>fl (topZ - boardTop)\<bar>
      in separation \<ge> COPPER_OFFSET_MM_f64)"

section \<open>Sequences of store operations and store invariants\<close>

datatype pad_op = AddPad SMDDPadData | RemovePad string

fun pads_step :: "CopperLayerManager \<Rightarrow> pad_op \<Rightarrow> SMDPads \<Rightarrow> SMDPads" where
  "pads_step clm (AddPad p) s = snd (addPad clm p s)"
| "pads_step clm (RemovePad k) s = snd (removePad clm k s)"

definition pads_run :: "CopperLayerManager \<Rightarrow> pad_op list \<Rightarrow> SMDPads \<Rightarrow> SMDPads" where
  "pads_run clm ops s = fold (pads_step clm) ops s"

fun added_ids :: "pad_op list \<Rightarrow> string list" where
  "added_ids [] = []"
| "added_ids (AddPad p # ops) = pad_id p # added_ids ops"
| "added_ids (RemovePad k # ops) = added_ids ops"

text \<open>
  What every pad store that the public operations can produce satisfies: keys are the ids of
  the records they hold and are unique (a \<open>Map\<close>), there are at most as many records as
  instances, at most \<open>maxInstances\<close> instances, and both meshes were allocated with
  \<open>maxInstances\<close> slots.
\<close>

definition pads_wf :: "SMDPads \<Rightarrow> bool" where
  "pads_wf s \<longleftrightarrow>
     distinct (map fst (padData s)) \<and>
     list_all (\<lambda>kv. fst kv = pad_id (snd kv)) (padData s) \<and>
     length (padData s) \<le> pads_instanceCount s \<and>
     pads_instanceCount s \<le> pads_maxInstances s \<and>
     im_capacity (pads_instancedMesh s) = pads_maxInstances s \<and>
     im_capacity (pads_edgeMesh s) = pads_maxInstances s"

text \<open>
  The dense-slot property: the store holds exactly as many records as instances, and the slot
  of the \<open>i\<close>-th record, in both buffers, holds that record's placement transform.
\<close>

definition pads_dense :: "CopperLayerManager \<Rightarrow> SMDPads \<Rightarrow> bool" where
  "pads_dense clm s \<longleftrightarrow>
     pads_wf s \<and>
     pads_instanceCount s = length (padData s) \<and>
     list_all (\<lambda>i. im_matrices (pads_instancedMesh s) i = Some (pad_transform clm (snd (padData s ! i))) \<and>
                    im_matrices (pads_edgeMesh s) i = Some (pad_transform clm (snd (padData s ! i))))
       [0..<pads_instanceCount s]"

text \<open>The state in which \<open>rebuildInstances\<close> starts to add the remaining pads again.\<close>

definition rebuild_start :: "SMDPads \<Rightarrow> SMDPads" where
  "rebuild_start s =
     s\<lparr>pads_instanceCount := 0,
       pads_instancedMesh := (pads_instancedMesh s)\<lparr>im_count := 0\<rparr>,
       pads_edgeMesh := (pads_edgeMesh s)\<lparr>im_count := 0\<rparr>,
       padData := []\<rparr>"

inductive pads_reachable :: "nat \<Rightarrow> SMDPads \<Rightarrow> bool" where
  pads_new: "pads_reachable C (new_SMDPads C)"
| pads_add: "pads_reachable C s \<Longrightarrow> pads_reachable C (snd (addPad clm p s))"
| pads_remove: "pads_reachable C s \<Longrightarrow> pads_reachable C (snd (removePad clm k s))"
| pads_cleared: "pads_reachable C s \<Longrightarrow> pads_reachable C (pads_clear s)"
| pads_moved: "pads_reachable C s \<Longrightarrow> pads_reachable C (snd (updatePadPosition clm k v s))"
| pads_resized: "pads_reachable C s \<Longrightarrow> pads_reachable C (snd (updatePadSize clm k w s))"

definition holes_wf :: "ThroughHoles \<Rightarrow> bool" where
  "holes_wf s \<longleftrightarrow>
     distinct (map fst (holeData s)) \<and>
     list_all (\<lambda>kv. fst kv = hole_id (snd kv)) (holeData s) \<and>
     length (holeData s) \<le> holes_instanceCount s \<and>
     holes_instanceCount s \<le> holes_maxInstances s \<and>
     im_capacity (holes_instancedMesh s) = holes_maxInstances s \<and>
     im_capacity (holes_edgeMesh s) = holes_maxInstances s"

inductive holes_reachable :: "nat \<Rightarrow> ThroughHoles \<Rightarrow> bool" where
  holes_new: "holes_reachable C (new_ThroughHoles C)"
| holes_add: "holes_reachable C s \<Longrightarrow> holes_reachable C (snd (addHole d s))"
| holes_cleared: "holes_reachable C s \<Longrightarrow> holes_reachable C (holes_clear s)"

section \<open>Board states built by authoring calls\<close>









section \<open>Example data\<close>

text \<open>
  Concrete inputs at which the theorems below are instantiated: the default board thickness,
  two pads, two holes, the L-shaped trace of the specification's test
  (\<open>[(0,0),(10,0),(10,10)]\<close>, width 1) and a straight one.
\<close>

definition clm16 :: CopperLayerManager where
  "clm16 = \<lparr>boardThickness = 1.6\<rparr>"

definition pad_a :: SMDDPadData where
  "pad_a = \<lparr>pad_id = ''a'', pad_type = Rect, pad_position = \<lparr>v3_x = 0, v3_y = 0, v3_z = 0\<rparr>,
            pad_size = \<lparr>v2_x = 2, v2_y = 2\<rparr>, pad_rotation = 0, pad_layer = Top\<rparr>"

definition pad_b :: SMDDPadData where
  "pad_b = \<lparr>pad_id = ''b'', pad_type = Circle, pad_position = \<lparr>v3_x = 6, v3_y = 0, v3_z = 3\<rparr>,
            pad_size = \<lparr>v2_x = 1, v2_y = 1\<rparr>, pad_rotation = 0, pad_layer = Bottom\<rparr>"

definition pad_a2 :: SMDDPadData where
  "pad_a2 = pad_a\<lparr>pad_position := \<lparr>v3_x = 12, v3_y = 0, v3_z = 0\<rparr>\<rparr>"

definition hole_a :: ThroughHoleData where
  "hole_a = \<lparr>hole_id = ''h1'', hole_position = \<lparr>v3_x = 0, v3_y = 0, v3_z = 0\<rparr>,
             hole_diameter = 0.8, hole_depth = 1.7\<rparr>"

definition hole_b :: ThroughHoleData where
  "hole_b = \<lparr>hole_id = ''h2'', hole_position = \<lparr>v3_x = 10, v3_y = 0, v3_z = 0\<rparr>,
             hole_diameter = 0.8, hole_depth = 1.7\<rparr>"

definition hole_a2 :: ThroughHoleData where
  "hole_a2 = hole_a\<lparr>hole_diameter := 2\<rparr>"

definition trace_l :: TraceData where
  "trace_l = \<lparr>trace_id = ''t1'',
              trace_points = [\<lparr>v2_x = 0, v2_y = 0\<rparr>, \<lparr>v2_x = 10, v2_y = 0\<rparr>, \<lparr>v2_x = 10, v2_y = 10\<rparr>],
              trace_width = 1, trace_layer = Top\<rparr>"

definition trace_s :: TraceData where
  "trace_s = \<lparr>trace_id = ''t2'',
              trace_points = [\<lparr>v2_x = 0, v2_y = 5\<rparr>, \<lparr>v2_x = 4, v2_y = 5\<rparr>],
              trace_width = 1, trace_layer = Bottom\<rparr>"

text \<open>A pad store with room for two pads holding \<open>pad_a\<close> and \<open>pad_b\<close>.\<close>

definition pads_ab :: SMDPads where
  "pads_ab = snd (addPad clm16 pad_b (snd (addPad clm16 pad_a (new_SMDPads 2))))"

text \<open>A pad store and a hole store with room for three, holding one entity each.\<close>

definition pads_one :: SMDPads where
  "pads_one = snd (addPad clm16 pad_a (new_SMDPads 3))"

definition holes_one :: ThroughHoles where
  "holes_one = snd (addHole hole_a (new_ThroughHoles 3))"

text \<open>Stores that are full: one pad of one, one hole of one, two segments of two.\<close>

definition pads_full :: SMDPads where
  "pads_full = snd (addPad clm16 pad_a (new_SMDPads 1))"

definition holes_full :: ThroughHoles where
  "holes_full = snd (addHole hole_a (new_ThroughHoles 1))"

definition traces_full :: FlatTraces where
  "traces_full = snd (addTrace trace_l (new_FlatTraces 2))"

section \<open>Trace decomposition, stated apart from the store\<close>




text \<open>The height at which a store placed its instance \<open>i\<close>.\<close>

definition placed_y :: "InstancedMesh \<Rightarrow> nat \<Rightarrow> real option" where
  "placed_y mesh i = map_option (\<lambda>m. v3_y (m_position m)) (im_matrices mesh i)"

section \<open>Example documents, components and scenes\<close>

text \<open>
  A document whose only component is a path with the points \<open>[1, 2]\<close>: two entries, neither
  of them a pair of numbers.
\<close>

definition bad_path_component :: json where
  "bad_path_component =
     JObj [(''id'', JStr ''t''), (''type'', JStr ''path''),
           (''pos'', JArr [JNum 0, JNum 0.01, JNum 0]),
           (''layer'', JStr ''top''), (''width'', JNum 1),
           (''points'', JArr [JNum 1, JNum 2])]"

definition bad_path_document :: json where
  "bad_path_document =
     JObj [(''board'', JObj [(''width'', JNum 100), (''height'', JNum 80), (''thickness'', JNum 1.6)]),
           (''components'', JArr [bad_path_component])]"





section \<open>The hover invariant\<close>



section \<open>Invariants of board states built by authoring calls\<close>







section \<open>Association lists as JavaScript maps\<close>

lemma update_fresh: "k \<notin> fst ` set al \<Longrightarrow> AList.update k v al = al @ [(k, v)]"
  by (induction al) auto

lemma update_present_keys: "k \<in> fst ` set al \<Longrightarrow> map fst (AList.update k v al) = map fst al"
  by (simp add: AList.update_keys)

lemma update_present_length: "k \<in> fst ` set al \<Longrightarrow> length (AList.update k v al) = length al"
  using update_present_keys[of k al v] by (metis length_map)

lemma update_length_le: "length (AList.update k v al) \<le> Suc (length al)"
  by (induction al) auto

lemma set_update_subset: "set (AList.update k v al) \<subseteq> insert (k, v) (set al)"
  by (induction al) auto

lemma map_of_None_iff: "map_of al k = None \<longleftrightarrow> k \<notin> fst ` set al"
  by (simp add: map_of_eq_None_iff)

lemma indexOf_distinct: "distinct ks \<Longrightarrow> map (indexOf ks) ks = map Some [0..<length ks]"
proof (induction ks)
  case Nil
  then show ?case by simp
next
  case (Cons k ks)
  have "map (indexOf (k # ks)) ks = map (map_option Suc) (map (indexOf ks) ks)"
    using Cons.prems by auto
  also have "\<dots> = map (map_option Suc) (map Some [0..<length ks])"
    using Cons by simp
  also have "\<dots> = map Some (map Suc [0..<length ks])"
    by simp
  finally have tl: "map (indexOf (k # ks)) ks = map Some [Suc 0..<Suc (length ks)]"
    by (simp add: map_Suc_upt)
  have hd: "indexOf (k # ks) k = Some 0" by simp
  have up: "[0..<length (k # ks)] = 0 # [Suc 0..<Suc (length ks)]"
    by (simp add: upt_conv_Cons del: upt_Suc)
  show ?case
    unfolding up using tl hd by (simp del: indexOf.simps upt_Suc)
qed

section \<open>The pad store: capacity, rebuild and dense slots\<close>

lemma pads_dense_iff:
  "pads_dense clm s \<longleftrightarrow>
     pads_wf s \<and> pads_instanceCount s = length (padData s) \<and>
     (\<forall>i < pads_instanceCount s.
        im_matrices (pads_instancedMesh s) i = Some (pad_transform clm (snd (padData s ! i))) \<and>
        im_matrices (pads_edgeMesh s) i = Some (pad_transform clm (snd (padData s ! i))))"
  by (auto simp: pads_dense_def list_all_iff)

lemma pads_wf_new: "pads_wf (new_SMDPads C)"
  by (simp add: pads_wf_def new_SMDPads_def new_InstancedMesh_def)

lemma pads_dense_new: "pads_dense clm (new_SMDPads C)"
  by (simp add: pads_dense_def pads_wf_new) (simp add: new_SMDPads_def)

lemma addPad_full:
  "pads_instanceCount s \<ge> pads_maxInstances s \<Longrightarrow> addPad clm p s = (False, s)"
  by (simp add: addPad_def)

lemma addPad_below:
  assumes "pads_instanceCount s < pads_maxInstances s"
  shows "fst (addPad clm p s) = True"
    and "padData (snd (addPad clm p s)) = AList.update (pad_id p) p (padData s)"
    and "pads_instanceCount (snd (addPad clm p s)) = Suc (pads_instanceCount s)"
    and "pads_maxInstances (snd (addPad clm p s)) = pads_maxInstances s"
    and "im_capacity (pads_instancedMesh (snd (addPad clm p s))) = im_capacity (pads_instancedMesh s)"
    and "im_capacity (pads_edgeMesh (snd (addPad clm p s))) = im_capacity (pads_edgeMesh s)"
  using assms
  by (simp_all add: addPad_def Let_def updateInstanceMatrix_def setMatrixAt_def)

lemma addPad_below_matrices:
  assumes "pads_instanceCount s < pads_maxInstances s"
    and "im_capacity (pads_instancedMesh s) = pads_maxInstances s"
    and "im_capacity (pads_edgeMesh s) = pads_maxInstances s"
  shows "im_matrices (pads_instancedMesh (snd (addPad clm p s))) =
           (im_matrices (pads_instancedMesh s))(pads_instanceCount s \<mapsto> pad_transform clm p)"
    and "im_matrices (pads_edgeMesh (snd (addPad clm p s))) =
           (im_matrices (pads_edgeMesh s))(pads_instanceCount s \<mapsto> pad_transform clm p)"
  using assms
  by (simp_all add: addPad_def Let_def updateInstanceMatrix_def setMatrixAt_def)

lemma addPad_maxInstances: "pads_maxInstances (snd (addPad clm p s)) = pads_maxInstances s"
  by (cases "pads_instanceCount s < pads_maxInstances s")
     (simp_all add: addPad_below addPad_full)

lemma addPad_wf:
  assumes "pads_wf s"
  shows "pads_wf (snd (addPad clm p s))"
proof (cases "pads_instanceCount s < pads_maxInstances s")
  case False
  then show ?thesis using assms by (simp add: addPad_full)
next
  case True
  note b = addPad_below[OF True, of clm p]
  have d: "distinct (map fst (AList.update (pad_id p) p (padData s)))"
    using assms by (simp add: pads_wf_def AList.distinct_update)
  have ids: "list_all (\<lambda>kv. fst kv = pad_id (snd kv)) (AList.update (pad_id p) p (padData s))"
    using assms set_update_subset[of "pad_id p" p "padData s"]
    by (auto simp: pads_wf_def list_all_iff)
  have len: "length (AList.update (pad_id p) p (padData s)) \<le> Suc (pads_instanceCount s)"
    using assms update_length_le[of "pad_id p" p "padData s"] by (simp add: pads_wf_def)
  show ?thesis
    unfolding pads_wf_def using b d ids len True assms by (simp add: pads_wf_def)
qed

lemma addPad_fresh:
  assumes "pads_dense clm s" "pad_id p \<notin> fst ` set (padData s)"
    "pads_instanceCount s < pads_maxInstances s"
  shows "fst (addPad clm p s) = True"
    and "padData (snd (addPad clm p s)) = padData s @ [(pad_id p, p)]"
    and "pads_dense clm (snd (addPad clm p s))"
proof -
  note b = addPad_below[OF assms(3), of clm p]
  have wf: "pads_wf s" using assms(1) by (simp add: pads_dense_def)
  have caps: "im_capacity (pads_instancedMesh s) = pads_maxInstances s"
    "im_capacity (pads_edgeMesh s) = pads_maxInstances s"
    using wf by (simp_all add: pads_wf_def)
  note m = addPad_below_matrices[OF assms(3) caps, of clm p]
  show "fst (addPad clm p s) = True" by (rule b(1))
  show pd: "padData (snd (addPad clm p s)) = padData s @ [(pad_id p, p)]"
    using b(2) assms(2) by (simp add: update_fresh)
  have cnt: "pads_instanceCount s = length (padData s)"
    using assms(1) by (simp add: pads_dense_iff)
  have old: "\<forall>i < length (padData s).
        im_matrices (pads_instancedMesh s) i = Some (pad_transform clm (snd (padData s ! i))) \<and>
        im_matrices (pads_edgeMesh s) i = Some (pad_transform clm (snd (padData s ! i)))"
    using assms(1) cnt by (simp add: pads_dense_iff)
  show "pads_dense clm (snd (addPad clm p s))"
    unfolding pads_dense_iff
  proof (intro conjI allI impI)
    show "pads_wf (snd (addPad clm p s))" by (rule addPad_wf[OF wf])
    show "pads_instanceCount (snd (addPad clm p s)) = length (padData (snd (addPad clm p s)))"
      using b(3) pd cnt by simp
  next
    fix i assume "i < pads_instanceCount (snd (addPad clm p s))"
    then have i: "i < Suc (length (padData s))" using b(3) cnt by simp
    show "im_matrices (pads_instancedMesh (snd (addPad clm p s))) i =
            Some (pad_transform clm (snd (padData (snd (addPad clm p s)) ! i)))"
      using i old m(1) pd cnt by (cases "i = length (padData s)") (simp_all add: nth_append)
    show "im_matrices (pads_edgeMesh (snd (addPad clm p s))) i =
            Some (pad_transform clm (snd (padData (snd (addPad clm p s)) ! i)))"
      using i old m(2) pd cnt by (cases "i = length (padData s)") (simp_all add: nth_append)
  qed
qed

lemma addPad_each_fresh:
  assumes "pads_dense clm s" "distinct (map pad_id ps)"
    "set (map pad_id ps) \<inter> fst ` set (padData s) = {}"
    "pads_instanceCount s + length ps \<le> pads_maxInstances s"
  shows "fst (addPad_each clm ps s) = replicate (length ps) True \<and>
         padData (snd (addPad_each clm ps s)) = padData s @ map (\<lambda>p. (pad_id p, p)) ps \<and>
         pads_dense clm (snd (addPad_each clm ps s)) \<and>
         pads_maxInstances (snd (addPad_each clm ps s)) = pads_maxInstances s"
  using assms
proof (induction ps arbitrary: s)
  case Nil
  then show ?case by simp
next
  case (Cons p ps)
  define s1 where "s1 = snd (addPad clm p s)"
  have fresh: "pad_id p \<notin> fst ` set (padData s)" using Cons.prems(3) by auto
  have lt: "pads_instanceCount s < pads_maxInstances s" using Cons.prems(4) by simp
  note step = addPad_fresh[OF Cons.prems(1) fresh lt, folded s1_def]
  have mx: "pads_maxInstances s1 = pads_maxInstances s"
    unfolding s1_def by (rule addPad_maxInstances)
  have cnt: "pads_instanceCount s1 = Suc (pads_instanceCount s)"
    unfolding s1_def by (rule addPad_below(3)[OF lt])
  have disj: "set (map pad_id ps) \<inter> fst ` set (padData s1) = {}"
    using Cons.prems(2,3) step(2) by auto
  have IH: "fst (addPad_each clm ps s1) = replicate (length ps) True \<and>
         padData (snd (addPad_each clm ps s1)) = padData s1 @ map (\<lambda>p. (pad_id p, p)) ps \<and>
         pads_dense clm (snd (addPad_each clm ps s1)) \<and>
         pads_maxInstances (snd (addPad_each clm ps s1)) = pads_maxInstances s1"
    using Cons.IH[OF step(3) _ disj] Cons.prems(2,4) cnt mx by simp
  have unfold: "addPad_each clm (p # ps) s =
      (fst (addPad clm p s) # fst (addPad_each clm ps s1), snd (addPad_each clm ps s1))"
    by (simp add: split_def Let_def s1_def)
  show ?case
    unfolding unfold using IH step(2) mx addPad_fresh(1)[OF Cons.prems(1) fresh lt] by simp
qed

lemma keys_are_ids:
  "list_all (\<lambda>kv. fst kv = pad_id (snd kv)) al \<Longrightarrow> map (\<lambda>p. (pad_id p, p)) (map snd al) = al"
  by (induction al) auto

lemma keys_are_ids_map:
  "list_all (\<lambda>kv. fst kv = pad_id (snd kv)) al \<Longrightarrow> map pad_id (map snd al) = map fst al"
  by (induction al) auto

lemma rebuildInstances_alt:
  "rebuildInstances clm s = snd (addPad_each clm (map snd (padData s)) (rebuild_start s))"
  by (simp add: rebuildInstances_def rebuild_start_def Let_def)

lemma rebuild_start_simps:
  "padData (rebuild_start s) = []"
  "pads_instanceCount (rebuild_start s) = 0"
  "pads_maxInstances (rebuild_start s) = pads_maxInstances s"
  by (simp_all add: rebuild_start_def)

lemma rebuild_start_dense:
  "im_capacity (pads_instancedMesh s) = pads_maxInstances s \<Longrightarrow>
   im_capacity (pads_edgeMesh s) = pads_maxInstances s \<Longrightarrow> pads_dense clm (rebuild_start s)"
  by (simp add: pads_dense_def pads_wf_def rebuild_start_def)

lemma removePad_unknown: "map_of (padData s) k = None \<Longrightarrow> removePad clm k s = (False, s)"
  by (simp add: removePad_def)

lemma removePad_known:
  assumes "pads_wf s" "map_of (padData s) k \<noteq> None"
  shows "fst (removePad clm k s) = True"
    and "padData (snd (removePad clm k s)) = AList.delete k (padData s)"
    and "pads_dense clm (snd (removePad clm k s))"
    and "pads_maxInstances (snd (removePad clm k s)) = pads_maxInstances s"
proof -
  define al where "al = AList.delete k (padData s)"
  define s0 where "s0 = rebuild_start (s\<lparr>padData := al\<rparr>)"
  have inv0: "pads_dense clm s0"
    unfolding s0_def by (rule rebuild_start_dense) (use assms(1) in \<open>simp_all add: pads_wf_def\<close>)
  have s0_simps: "padData s0 = []" "pads_instanceCount s0 = 0"
    "pads_maxInstances s0 = pads_maxInstances s"
    unfolding s0_def by (simp_all add: rebuild_start_simps)
  have d: "distinct (map fst al)"
    using assms(1) by (simp add: al_def pads_wf_def AList.distinct_delete)
  have ids: "list_all (\<lambda>kv. fst kv = pad_id (snd kv)) al"
    using assms(1) by (auto simp: al_def pads_wf_def AList.delete_eq list_all_iff)
  have "k \<in> fst ` set (padData s)" using assms(2) by (simp add: map_of_None_iff)
  then have "length al < length (padData s)"
  proof -
    obtain v where "(k, v) \<in> set (padData s)" using \<open>k \<in> fst ` set (padData s)\<close> by auto
    then show ?thesis
      unfolding al_def AList.delete_eq
      by (intro length_filter_less[of "(k, v)"]) simp_all
  qed
  then have len: "length al \<le> pads_maxInstances s"
    using assms(1) by (simp add: pads_wf_def)
  have r: "removePad clm k s = (True, snd (addPad_each clm (map snd al) s0))"
    using assms(2) by (simp add: removePad_def rebuildInstances_alt al_def s0_def)
  have E: "fst (addPad_each clm (map snd al) s0) = replicate (length (map snd al)) True \<and>
         padData (snd (addPad_each clm (map snd al) s0)) =
           padData s0 @ map (\<lambda>p. (pad_id p, p)) (map snd al) \<and>
         pads_dense clm (snd (addPad_each clm (map snd al) s0)) \<and>
         pads_maxInstances (snd (addPad_each clm (map snd al) s0)) = pads_maxInstances s0"
  proof (rule addPad_each_fresh[OF inv0])
    show "distinct (map pad_id (map snd al))" using d keys_are_ids_map[OF ids] by metis
    show "set (map pad_id (map snd al)) \<inter> fst ` set (padData s0) = {}" by (simp add: s0_simps)
    show "pads_instanceCount s0 + length (map snd al) \<le> pads_maxInstances s0"
      using len by (simp add: s0_simps)
  qed
  show "fst (removePad clm k s) = True" using r by simp
  show "padData (snd (removePad clm k s)) = AList.delete k (padData s)"
    using r E keys_are_ids[OF ids] by (simp add: s0_simps al_def)
  show "pads_dense clm (snd (removePad clm k s))" using r E by simp
  show "pads_maxInstances (snd (removePad clm k s)) = pads_maxInstances s"
    using r E by (simp add: s0_simps)
qed

lemma removePad_wf: "pads_wf s \<Longrightarrow> pads_wf (snd (removePad clm k s))"
  by (cases "map_of (padData s) k = None")
     (use removePad_known(3)[of s k clm] in \<open>auto simp: removePad_unknown pads_dense_def\<close>)

lemma removePad_maxInstances:
  "pads_wf s \<Longrightarrow> pads_maxInstances (snd (removePad clm k s)) = pads_maxInstances s"
  by (cases "map_of (padData s) k = None")
     (use removePad_known(4)[of s k clm] in \<open>auto simp: removePad_unknown\<close>)

lemma pads_clear_wf: "pads_wf s \<Longrightarrow> pads_wf (pads_clear s)"
  by (simp add: pads_wf_def pads_clear_def)

lemma update_value_wf:
  assumes "pads_wf s" "map_of (padData s) k = Some pd" "pad_id pd1 = pad_id pd"
  shows "pads_wf (s\<lparr>padData := AList.update k pd1 (padData s)\<rparr>)"
proof -
  have kin: "k \<in> fst ` set (padData s)"
    using assms(2) by (metis map_of_None_iff option.distinct(1))
  have "(k, pd) \<in> set (padData s)" using assms(2) by (rule map_of_SomeD)
  then have kid: "k = pad_id pd1"
    using assms(1,3) by (auto simp: pads_wf_def list_all_iff)
  have ids: "list_all (\<lambda>kv. fst kv = pad_id (snd kv)) (AList.update k pd1 (padData s))"
    using assms(1) set_update_subset[of k pd1 "padData s"] kid
    by (auto simp: pads_wf_def list_all_iff)
  show ?thesis
    using assms(1) ids update_present_length[OF kin, of pd1]
    by (simp add: pads_wf_def AList.distinct_update)
qed

lemma updateInstanceMatrix_wf: "pads_wf s \<Longrightarrow> pads_wf (updateInstanceMatrix clm p i s)"
  by (simp add: pads_wf_def updateInstanceMatrix_def Let_def setMatrixAt_def)

lemma updateInstanceMatrix_maxInstances:
  "pads_maxInstances (updateInstanceMatrix clm p i s) = pads_maxInstances s"
  by (simp add: updateInstanceMatrix_def Let_def)

lemma needsUpdate_wf:
  "pads_wf s \<Longrightarrow> pads_wf (s\<lparr>pads_instancedMesh := (pads_instancedMesh s)\<lparr>im_needsUpdate := True\<rparr>\<rparr>)"
  by (simp add: pads_wf_def)

lemma updatePadPosition_wf:
  assumes "pads_wf s"
  shows "pads_wf (snd (updatePadPosition clm k v s)) \<and>
         pads_maxInstances (snd (updatePadPosition clm k v s)) = pads_maxInstances s"
proof (cases "map_of (padData s) k")
  case None
  then show ?thesis using assms by (simp add: updatePadPosition_def)
next
  case (Some pd)
  define s1 where "s1 = s\<lparr>padData := AList.update k (pd\<lparr>pad_position := v\<rparr>) (padData s)\<rparr>"
  have wf1: "pads_wf s1"
    unfolding s1_def by (rule update_value_wf[OF assms Some]) simp
  have mx1: "pads_maxInstances s1 = pads_maxInstances s" by (simp add: s1_def)
  show ?thesis
    using Some wf1 mx1 needsUpdate_wf[OF updateInstanceMatrix_wf[OF wf1]]
    by (simp add: updatePadPosition_def Let_def s1_def[symmetric]
        updateInstanceMatrix_maxInstances split: option.split)
qed

lemma updatePadSize_wf:
  assumes "pads_wf s"
  shows "pads_wf (snd (updatePadSize clm k w s)) \<and>
         pads_maxInstances (snd (updatePadSize clm k w s)) = pads_maxInstances s"
proof (cases "map_of (padData s) k")
  case None
  then show ?thesis using assms by (simp add: updatePadSize_def)
next
  case (Some pd)
  define s1 where "s1 = s\<lparr>padData := AList.update k (pd\<lparr>pad_size := w\<rparr>) (padData s)\<rparr>"
  have wf1: "pads_wf s1"
    unfolding s1_def by (rule update_value_wf[OF assms Some]) simp
  have mx1: "pads_maxInstances s1 = pads_maxInstances s" by (simp add: s1_def)
  show ?thesis
    using Some wf1 mx1 needsUpdate_wf[OF updateInstanceMatrix_wf[OF wf1]]
    by (simp add: updatePadSize_def Let_def s1_def[symmetric]
        updateInstanceMatrix_maxInstances split: option.split)
qed

lemma pads_reachable_wf: "pads_reachable C s \<Longrightarrow> pads_wf s \<and> pads_maxInstances s = C"
proof (induction rule: pads_reachable.induct)
  case (pads_new C)
  show ?case by (simp add: pads_wf_new) (simp add: new_SMDPads_def)
next
  case (pads_add C s clm p)
  then show ?case by (simp add: addPad_wf addPad_maxInstances)
next
  case (pads_remove C s clm k)
  then show ?case by (simp add: removePad_wf removePad_maxInstances)
next
  case (pads_cleared C s)
  then show ?case by (simp add: pads_clear_wf) (simp add: pads_clear_def)
next
  case (pads_moved C s clm k v)
  then show ?case using updatePadPosition_wf[of s clm k v] by simp
next
  case (pads_resized C s clm k w)
  then show ?case using updatePadSize_wf[of s clm k w] by simp
qed

lemma pads_dense_slots:
  assumes "pads_dense clm s"
  shows "map (\<lambda>k. getInstanceId k s) (map fst (padData s)) = map Some [0..<pads_instanceCount s]"
proof -
  have "distinct (map fst (padData s))" using assms by (simp add: pads_dense_def pads_wf_def)
  from indexOf_distinct[OF this] show ?thesis
    using assms by (simp add: getInstanceId_def pads_dense_iff)
qed

lemma pads_step_dense:
  assumes "pads_dense clm s"
    and "\<And>p. op = AddPad p \<Longrightarrow> pad_id p \<notin> fst ` set (padData s)"
  shows "pads_dense clm (pads_step clm op s) \<and>
         fst ` set (padData (pads_step clm op s)) \<subseteq>
           fst ` set (padData s) \<union> set (added_ids [op])"
proof (cases op)
  case (AddPad p)
  show ?thesis
  proof (cases "pads_instanceCount s < pads_maxInstances s")
    case True
    from addPad_fresh[OF assms(1) assms(2)[OF AddPad] True] show ?thesis
      using AddPad by auto
  next
    case False
    then show ?thesis using AddPad assms(1) by (auto simp: addPad_full)
  qed
next
  case (RemovePad k)
  have wf: "pads_wf s" using assms(1) by (simp add: pads_dense_def)
  show ?thesis
  proof (cases "map_of (padData s) k = None")
    case True
    then show ?thesis using RemovePad assms(1) by (auto simp: removePad_unknown)
  next
    case False
    from removePad_known[OF wf False] show ?thesis
      using RemovePad AList.dom_delete_subset[of k "padData s"] by auto
  qed
qed

lemma added_ids_Cons: "added_ids (op # ops) = added_ids [op] @ added_ids ops"
  by (cases op) simp_all

lemma pads_run_dense:
  assumes "pads_dense clm s" "distinct (added_ids ops)"
    "set (added_ids ops) \<inter> fst ` set (padData s) = {}"
  shows "pads_dense clm (pads_run clm ops s)"
  using assms
proof (induction ops arbitrary: s)
  case Nil
  then show ?case by (simp add: pads_run_def)
next
  case (Cons op ops)
  have fresh: "\<And>p. op = AddPad p \<Longrightarrow> pad_id p \<notin> fst ` set (padData s)"
    using Cons.prems(3) by auto
  note st = pads_step_dense[OF Cons.prems(1) fresh]
  have d: "distinct (added_ids ops)"
    using Cons.prems(2) added_ids_Cons[of op ops] by simp
  have disj: "set (added_ids ops) \<inter> fst ` set (padData (pads_step clm op s)) = {}"
  proof -
    have a: "set (added_ids ops) \<inter> fst ` set (padData s) = {}"
      using Cons.prems(3) added_ids_Cons[of op ops] by auto
    have b: "set (added_ids ops) \<inter> set (added_ids [op]) = {}"
      using Cons.prems(2) added_ids_Cons[of op ops] by auto
    show ?thesis using a b st by blast
  qed
  have "pads_dense clm (pads_run clm ops (pads_step clm op s))"
    using Cons.IH[OF _ d disj] st by simp
  then show ?case by (simp add: pads_run_def)
qed

lemma addPad_each_append:
  "addPad_each clm (xs @ ys) s =
     (fst (addPad_each clm xs s) @ fst (addPad_each clm ys (snd (addPad_each clm xs s))),
      snd (addPad_each clm ys (snd (addPad_each clm xs s))))"
  by (induction xs arbitrary: s) (simp_all add: split_def Let_def)

lemma addPad_over_capacity:
  assumes "distinct (map pad_id ps)" "length ps = Suc C"
  shows "fst (addPad_each clm ps (new_SMDPads C)) = replicate C True @ [False]"
    and "length (padData (snd (addPad_each clm ps (new_SMDPads C)))) = C"
    and "pads_instanceCount (snd (addPad_each clm ps (new_SMDPads C))) = C"
proof -
  define xs where "xs = butlast ps"
  define x where "x = last ps"
  have ps: "ps = xs @ [x]" using assms(2) by (cases ps rule: rev_cases) (simp_all add: xs_def x_def)
  have len: "length xs = C" using assms(2) ps by simp
  have mx: "pads_maxInstances (new_SMDPads C) = C" "pads_instanceCount (new_SMDPads C) = 0"
    "padData (new_SMDPads C) = []"
    by (simp_all add: new_SMDPads_def)
  define s1 where "s1 = snd (addPad_each clm xs (new_SMDPads C))"
  have E: "fst (addPad_each clm xs (new_SMDPads C)) = replicate (length xs) True \<and>
         padData s1 = padData (new_SMDPads C) @ map (\<lambda>p. (pad_id p, p)) xs \<and>
         pads_dense clm s1 \<and> pads_maxInstances s1 = pads_maxInstances (new_SMDPads C)"
    unfolding s1_def
    by (rule addPad_each_fresh[OF pads_dense_new]) (use assms(1) ps len mx in simp_all)
  have cnt: "pads_instanceCount s1 = C" using E len mx by (simp add: pads_dense_iff)
  have full: "addPad clm x s1 = (False, s1)"
    by (rule addPad_full) (use E cnt mx in simp)
  have r: "addPad_each clm ps (new_SMDPads C) = (replicate C True @ [False], s1)"
    unfolding ps addPad_each_append using E full len by (simp add: s1_def[symmetric])
  show "fst (addPad_each clm ps (new_SMDPads C)) = replicate C True @ [False]" using r by simp
  show "length (padData (snd (addPad_each clm ps (new_SMDPads C)))) = C"
    using r E len mx by simp
  show "pads_instanceCount (snd (addPad_each clm ps (new_SMDPads C))) = C" using r cnt by simp
qed

section \<open>The hole store\<close>

lemma holes_wf_new: "holes_wf (new_ThroughHoles C)"
  by (simp add: holes_wf_def new_ThroughHoles_def new_InstancedMesh_def)

lemma addHole_full:
  "holes_instanceCount s \<ge> holes_maxInstances s \<Longrightarrow> addHole d s = (False, s)"
  by (simp add: addHole_def)

lemma addHole_below:
  assumes "holes_instanceCount s < holes_maxInstances s"
  shows "fst (addHole d s) = True"
    and "holeData (snd (addHole d s)) = AList.update (hole_id d) d (holeData s)"
    and "holes_instanceCount (snd (addHole d s)) = Suc (holes_instanceCount s)"
    and "holes_maxInstances (snd (addHole d s)) = holes_maxInstances s"
    and "im_capacity (holes_instancedMesh (snd (addHole d s))) = im_capacity (holes_instancedMesh s)"
    and "im_capacity (holes_edgeMesh (snd (addHole d s))) = im_capacity (holes_edgeMesh s)"
  using assms
  by (simp_all add: addHole_def Let_def setMatrixAt_def)

lemma addHole_below_matrix:
  assumes "holes_instanceCount s < holes_maxInstances s"
    and "im_capacity (holes_instancedMesh s) = holes_maxInstances s"
  shows "im_matrices (holes_instancedMesh (snd (addHole d s))) =
           (im_matrices (holes_instancedMesh s))(holes_instanceCount s \<mapsto> hole_transform d)"
  using assms
  by (simp add: addHole_def Let_def setMatrixAt_def)

lemma addHole_maxInstances: "holes_maxInstances (snd (addHole d s)) = holes_maxInstances s"
  by (cases "holes_instanceCount s < holes_maxInstances s")
     (simp_all add: addHole_below addHole_full)

lemma addHole_wf:
  assumes "holes_wf s"
  shows "holes_wf (snd (addHole d s))"
proof (cases "holes_instanceCount s < holes_maxInstances s")
  case False
  then show ?thesis using assms by (simp add: addHole_full)
next
  case True
  note b = addHole_below[OF True, of d]
  have dist: "distinct (map fst (AList.update (hole_id d) d (holeData s)))"
    using assms by (simp add: holes_wf_def AList.distinct_update)
  have ids: "list_all (\<lambda>kv. fst kv = hole_id (snd kv)) (AList.update (hole_id d) d (holeData s))"
    using assms set_update_subset[of "hole_id d" d "holeData s"]
    by (auto simp: holes_wf_def list_all_iff)
  have len: "length (AList.update (hole_id d) d (holeData s)) \<le> Suc (holes_instanceCount s)"
    using assms update_length_le[of "hole_id d" d "holeData s"] by (simp add: holes_wf_def)
  show ?thesis
    unfolding holes_wf_def using b dist ids len True assms by (simp add: holes_wf_def)
qed

lemma holes_clear_wf: "holes_wf s \<Longrightarrow> holes_wf (holes_clear s)"
  by (simp add: holes_wf_def holes_clear_def)

lemma holes_reachable_wf: "holes_reachable C s \<Longrightarrow> holes_wf s \<and> holes_maxInstances s = C"
proof (induction rule: holes_reachable.induct)
  case (holes_new C)
  show ?case by (simp add: holes_wf_new) (simp add: new_ThroughHoles_def)
next
  case (holes_add C s d)
  then show ?case by (simp add: addHole_wf addHole_maxInstances)
next
  case (holes_cleared C s)
  then show ?case by (simp add: holes_clear_wf) (simp add: holes_clear_def)
qed

lemma addHole_each_fresh:
  assumes "holes_wf s" "holes_instanceCount s = length (holeData s)"
    "distinct (map hole_id ds)"
    "set (map hole_id ds) \<inter> fst ` set (holeData s) = {}"
    "holes_instanceCount s + length ds \<le> holes_maxInstances s"
  shows "fst (addHole_each ds s) = replicate (length ds) True \<and>
         holeData (snd (addHole_each ds s)) = holeData s @ map (\<lambda>d. (hole_id d, d)) ds \<and>
         holes_wf (snd (addHole_each ds s)) \<and>
         holes_instanceCount (snd (addHole_each ds s)) = holes_instanceCount s + length ds \<and>
         holes_maxInstances (snd (addHole_each ds s)) = holes_maxInstances s"
  using assms
proof (induction ds arbitrary: s)
  case Nil
  then show ?case by simp
next
  case (Cons d ds)
  define s1 where "s1 = snd (addHole d s)"
  have fresh: "hole_id d \<notin> fst ` set (holeData s)" using Cons.prems(4) by auto
  have lt: "holes_instanceCount s < holes_maxInstances s" using Cons.prems(5) by simp
  note b = addHole_below[OF lt, of d, folded s1_def]
  have hd1: "holeData s1 = holeData s @ [(hole_id d, d)]"
    using b(2) fresh by (simp add: update_fresh)
  have wf1: "holes_wf s1" unfolding s1_def by (rule addHole_wf[OF Cons.prems(1)])
  have cnt1: "holes_instanceCount s1 = length (holeData s1)"
    using b(3) hd1 Cons.prems(2) by simp
  have disj: "set (map hole_id ds) \<inter> fst ` set (holeData s1) = {}"
    using Cons.prems(3,4) hd1 by auto
  have IH: "fst (addHole_each ds s1) = replicate (length ds) True \<and>
         holeData (snd (addHole_each ds s1)) = holeData s1 @ map (\<lambda>d. (hole_id d, d)) ds \<and>
         holes_wf (snd (addHole_each ds s1)) \<and>
         holes_instanceCount (snd (addHole_each ds s1)) = holes_instanceCount s1 + length ds \<and>
         holes_maxInstances (snd (addHole_each ds s1)) = holes_maxInstances s1"
    using Cons.IH[OF wf1 cnt1 _ disj] Cons.prems(3,5) b(3,4) by simp
  have unfold: "addHole_each (d # ds) s =
      (fst (addHole d s) # fst (addHole_each ds s1), snd (addHole_each ds s1))"
    by (simp add: split_def Let_def s1_def)
  show ?case
    unfolding unfold using IH hd1 b(3,4) addHole_below(1)[OF lt, of d] by simp
qed

lemma addHole_each_append:
  "addHole_each (xs @ ys) s =
     (fst (addHole_each xs s) @ fst (addHole_each ys (snd (addHole_each xs s))),
      snd (addHole_each ys (snd (addHole_each xs s))))"
  by (induction xs arbitrary: s) (simp_all add: split_def Let_def)

lemma addHole_over_capacity:
  assumes "distinct (map hole_id ds)" "length ds = Suc C"
  shows "fst (addHole_each ds (new_ThroughHoles C)) = replicate C True @ [False]"
    and "length (holeData (snd (addHole_each ds (new_ThroughHoles C)))) = C"
    and "holes_instanceCount (snd (addHole_each ds (new_ThroughHoles C))) = C"
proof -
  define xs where "xs = butlast ds"
  define x where "x = last ds"
  have ds: "ds = xs @ [x]" using assms(2) by (cases ds rule: rev_cases) (simp_all add: xs_def x_def)
  have len: "length xs = C" using assms(2) ds by simp
  have mx: "holes_maxInstances (new_ThroughHoles C) = C" "holes_instanceCount (new_ThroughHoles C) = 0"
    "holeData (new_ThroughHoles C) = []"
    by (simp_all add: new_ThroughHoles_def)
  define s1 where "s1 = snd (addHole_each xs (new_ThroughHoles C))"
  have E: "fst (addHole_each xs (new_ThroughHoles C)) = replicate (length xs) True \<and>
         holeData s1 = holeData (new_ThroughHoles C) @ map (\<lambda>d. (hole_id d, d)) xs \<and>
         holes_wf s1 \<and>
         holes_instanceCount s1 = holes_instanceCount (new_ThroughHoles C) + length xs \<and>
         holes_maxInstances s1 = holes_maxInstances (new_ThroughHoles C)"
    unfolding s1_def
    by (rule addHole_each_fresh[OF holes_wf_new]) (use assms(1) ds len mx in simp_all)
  have cnt: "holes_instanceCount s1 = C" using E len mx by simp
  have full: "addHole x s1 = (False, s1)"
    by (rule addHole_full) (use E cnt mx in simp)
  have r: "addHole_each ds (new_ThroughHoles C) = (replicate C True @ [False], s1)"
    unfolding ds addHole_each_append using E full len by (simp add: s1_def[symmetric])
  show "fst (addHole_each ds (new_ThroughHoles C)) = replicate C True @ [False]" using r by simp
  show "length (holeData (snd (addHole_each ds (new_ThroughHoles C)))) = C"
    using r E len mx by simp
  show "holes_instanceCount (snd (addHole_each ds (new_ThroughHoles C))) = C" using r cnt by simp
qed

section \<open>The trace store at capacity\<close>

lemma addTrace_loop_full:
  "traces_instanceCount s \<ge> traces_maxInstances s \<Longrightarrow> addTrace_loop t pts s segs = (s, segs)"
  by (cases "(t, pts, s, segs)" rule: addTrace_loop.cases) simp_all

lemma addTrace_loop_bounded:
  "traces_instanceCount s \<le> traces_maxInstances s \<Longrightarrow>
   traces_instanceCount (fst (addTrace_loop t pts s segs)) \<le> traces_maxInstances s \<and>
   traces_maxInstances (fst (addTrace_loop t pts s segs)) = traces_maxInstances s"
  by (induction t pts s segs rule: addTrace_loop.induct) (simp_all add: Let_def)

lemma addTrace_full:
  assumes "traces_instanceCount s \<ge> traces_maxInstances s"
  shows "addTrace t s =
     (True, s\<lparr>traces := AList.update (trace_id t) t (traces s),
              traceSegments := AList.update (trace_id t) [] (traceSegments s),
              traces_instancedMesh :=
                (traces_instancedMesh s)\<lparr>im_needsUpdate := True, im_count := traces_instanceCount s\<rparr>\<rparr>)"
  by (simp add: addTrace_def addTrace_loop_full[OF assms])

lemma addTrace_bounded:
  assumes "traces_instanceCount s \<le> traces_maxInstances s"
  shows "traces_instanceCount (snd (addTrace t s)) \<le> traces_maxInstances s"
  using addTrace_loop_bounded[OF assms, of t "trace_points t" "[]"]
  by (simp add: addTrace_def split_def Let_def)

section \<open>Evaluation of the example stores\<close>

lemma pads_full_eval:
  "pads_instanceCount pads_full = 1" "pads_maxInstances pads_full = 1"
  "padData pads_full = [(''a'', pad_a)]"
  by (simp_all add: pads_full_def addPad_def Let_def updateInstanceMatrix_def setMatrixAt_def
      new_SMDPads_def new_InstancedMesh_def pad_a_def)

lemma holes_full_eval:
  "holes_instanceCount holes_full = 1" "holes_maxInstances holes_full = 1"
  "holeData holes_full = [(''h1'', hole_a)]"
  by (simp_all add: holes_full_def addHole_def Let_def setMatrixAt_def
      new_ThroughHoles_def new_InstancedMesh_def hole_a_def)

lemma traces_full_eval:
  "traces_instanceCount traces_full = 2" "traces_maxInstances traces_full = 2"
  "map fst (traces traces_full) = [''t1'']"
  "map (\<lambda>kv. (fst kv, length (snd kv))) (traceSegments traces_full) = [(''t1'', 2)]"
  by (simp_all add: traces_full_def addTrace_def Let_def setMatrixAt_def
      new_FlatTraces_def new_InstancedMesh_def trace_l_def)

lemma pads_one_eval:
  "pads_instanceCount pads_one = 1" "pads_maxInstances pads_one = 3"
  "padData pads_one = [(''a'', pad_a)]"
  by (simp_all add: pads_one_def addPad_def Let_def updateInstanceMatrix_def setMatrixAt_def
      new_SMDPads_def new_InstancedMesh_def pad_a_def)

lemma holes_one_eval:
  "holes_instanceCount holes_one = 1" "holes_maxInstances holes_one = 3"
  "holeData holes_one = [(''h1'', hole_a)]"
  by (simp_all add: holes_one_def addHole_def Let_def setMatrixAt_def
      new_ThroughHoles_def new_InstancedMesh_def hole_a_def)

lemma pads_ab_eval:
  "pads_instanceCount pads_ab = 2" "pads_maxInstances pads_ab = 2"
  "padData pads_ab = [(''a'', pad_a), (''b'', pad_b)]"
  by (simp_all add: pads_ab_def addPad_def Let_def updateInstanceMatrix_def setMatrixAt_def
      new_SMDPads_def new_InstancedMesh_def pad_a_def pad_b_def)

lemma example_ids:
  "pad_id pad_a = ''a''" "pad_id pad_b = ''b''" "pad_id pad_a2 = ''a''"
  "hole_id hole_a = ''h1''" "hole_id hole_b = ''h2''" "hole_id hole_a2 = ''h1''"
  "trace_id trace_l = ''t1''" "trace_id trace_s = ''t2''"
  by (simp_all add: pad_a_def pad_b_def pad_a2_def hole_a_def hole_b_def hole_a2_def
      trace_l_def trace_s_def)

section \<open>C1: capacity of the instanced stores\<close>

text \<open>
  Claim C1, as stated: in every instanced store (pads, holes, trace segments) an add performed
  when the instance count has reached the capacity returns false and leaves the store
  unmutated.  The trace store does not behave so.  \<open>traces_full\<close> has capacity 2 and holds the
  two segments of \<open>trace_l\<close>; adding \<open>trace_s\<close> to it returns true and creates the trace's
  record (with no segment).
\<close>

theorem C1_trace_store_counterexample:
  "traces_instanceCount traces_full \<ge> traces_maxInstances traces_full \<and>
   fst (addTrace trace_s traces_full) = True \<and>
   map fst (traces traces_full) = [''t1''] \<and>
   map fst (traces (snd (addTrace trace_s traces_full))) = [''t1'', ''t2''] \<and>
   addTrace trace_s traces_full \<noteq> (False, traces_full)"
proof -
  have full: "traces_instanceCount traces_full \<ge> traces_maxInstances traces_full"
    by (simp add: traces_full_eval)
  have keys: "map fst (traces (snd (addTrace trace_s traces_full))) = [''t1'', ''t2'']"
    using traces_full_eval(3)
    by (simp add: addTrace_full[OF full] AList.update_keys example_ids)
  show ?thesis
    using full keys by (simp add: addTrace_full[OF full] traces_full_eval)
qed

text \<open>
  Claim C1, amended.  For the pad store and the hole store with capacity \<open>C\<close>: an add
  performed when the instance count has reached the capacity returns false and leaves the
  store unmutated, and adding \<open>C + 1\<close> entities with distinct ids to a new store succeeds \<open>C\<close>
  times, returns false the last time and leaves exactly \<open>C\<close> records and \<open>C\<close> instances.  For
  the trace store: \<open>addTrace\<close> on a full store commits no segment, leaves the instance count
  and every matrix as they were, but returns true and records the trace with an empty segment
  list; and an \<open>addTrace\<close> never takes the instance count above the capacity.
\<close>

theorem C1_capacity:
  "(pads_instanceCount s \<ge> pads_maxInstances s \<longrightarrow> addPad clm p s = (False, s)) \<and>
   (holes_instanceCount h \<ge> holes_maxInstances h \<longrightarrow> addHole d h = (False, h)) \<and>
   (distinct (map pad_id ps) \<and> length ps = Suc C \<longrightarrow>
      fst (addPad_each clm ps (new_SMDPads C)) = replicate C True @ [False] \<and>
      length (padData (snd (addPad_each clm ps (new_SMDPads C)))) = C \<and>
      pads_instanceCount (snd (addPad_each clm ps (new_SMDPads C))) = C) \<and>
   (distinct (map hole_id ds) \<and> length ds = Suc C' \<longrightarrow>
      fst (addHole_each ds (new_ThroughHoles C')) = replicate C' True @ [False] \<and>
      length (holeData (snd (addHole_each ds (new_ThroughHoles C')))) = C' \<and>
      holes_instanceCount (snd (addHole_each ds (new_ThroughHoles C'))) = C') \<and>
   (traces_instanceCount f \<ge> traces_maxInstances f \<longrightarrow>
      addTrace t f =
        (True, f\<lparr>traces := AList.update (trace_id t) t (traces f),
                 traceSegments := AList.update (trace_id t) [] (traceSegments f),
                 traces_instancedMesh :=
                   (traces_instancedMesh f)\<lparr>im_needsUpdate := True,
                                            im_count := traces_instanceCount f\<rparr>\<rparr>)) \<and>
   (traces_instanceCount f \<le> traces_maxInstances f \<longrightarrow>
      traces_instanceCount (snd (addTrace t f)) \<le> traces_maxInstances f)"
  using addPad_full[of s clm p] addHole_full[of h d]
    addPad_over_capacity[of ps C clm] addHole_over_capacity[of ds C']
    addTrace_full[of f t] addTrace_bounded[of f t]
  by blast

theorem C1_capacity_witness:
  "pads_instanceCount pads_full \<ge> pads_maxInstances pads_full \<and>
   addPad clm16 pad_b pads_full = (False, pads_full) \<and>
   holes_instanceCount holes_full \<ge> holes_maxInstances holes_full \<and>
   addHole hole_b holes_full = (False, holes_full) \<and>
   distinct (map pad_id [pad_a, pad_b]) \<and> length [pad_a, pad_b] = Suc 1 \<and>
   fst (addPad_each clm16 [pad_a, pad_b] (new_SMDPads 1)) = [True, False] \<and>
   length (padData (snd (addPad_each clm16 [pad_a, pad_b] (new_SMDPads 1)))) = 1 \<and>
   distinct (map hole_id [hole_a, hole_b]) \<and> length [hole_a, hole_b] = Suc 1 \<and>
   fst (addHole_each [hole_a, hole_b] (new_ThroughHoles 1)) = [True, False] \<and>
   holes_instanceCount (snd (addHole_each [hole_a, hole_b] (new_ThroughHoles 1))) = 1 \<and>
   traces_instanceCount traces_full \<ge> traces_maxInstances traces_full \<and>
   fst (addTrace trace_s traces_full) = True \<and>
   traces_instanceCount (snd (addTrace trace_s traces_full)) = 2"
proof -
  have h1: "pads_instanceCount pads_full \<ge> pads_maxInstances pads_full"
    by (simp add: pads_full_eval)
  have h2: "holes_instanceCount holes_full \<ge> holes_maxInstances holes_full"
    by (simp add: holes_full_eval)
  have h3: "distinct (map pad_id [pad_a, pad_b]) \<and> length [pad_a, pad_b] = Suc 1"
    by (simp add: example_ids)
  have h4: "distinct (map hole_id [hole_a, hole_b]) \<and> length [hole_a, hole_b] = Suc 1"
    by (simp add: example_ids)
  have h5: "traces_instanceCount traces_full \<ge> traces_maxInstances traces_full"
    by (simp add: traces_full_eval)
  show ?thesis
    using h1 h2 h3 h4 h5
      C1_capacity[of pads_full clm16 pad_b holes_full hole_b "[pad_a, pad_b]" 1
        "[hole_a, hole_b]" 1 traces_full trace_s]
    by (simp add: traces_full_eval)
qed

section \<open>C2: removal rebuilds the pad store with dense slots\<close>

text \<open>
  Claim C2.  For every state of a pad store (every state its operations produce from a new
  store): \<open>removePad\<close> with an unknown id returns false and changes nothing; \<open>removePad\<close>
  with a known id returns true, deletes that record and rebuilds the store, after which the
  store holds as many instances as records and the \<open>i\<close>-th remaining record has slot \<open>i\<close> and
  its placement transform in slot \<open>i\<close> of both instance buffers.  After any sequence of adds
  and removes with distinct ids on a new store, the slots of the live records are exactly
  \<open>0..count-1\<close>.
\<close>

theorem C2_remove_rebuilds_dense:
  "(map_of (padData s) k = None \<longrightarrow> removePad clm k s = (False, s)) \<and>
   (pads_reachable C s \<and> map_of (padData s) k \<noteq> None \<longrightarrow>
      fst (removePad clm k s) = True \<and>
      padData (snd (removePad clm k s)) = AList.delete k (padData s) \<and>
      pads_dense clm (snd (removePad clm k s)) \<and>
      map (\<lambda>k'. getInstanceId k' (snd (removePad clm k s)))
          (map fst (padData (snd (removePad clm k s)))) =
        map Some [0..<pads_instanceCount (snd (removePad clm k s))]) \<and>
   (distinct (added_ids ops) \<longrightarrow>
      pads_dense clm (pads_run clm ops (new_SMDPads C)) \<and>
      map (\<lambda>k'. getInstanceId k' (pads_run clm ops (new_SMDPads C)))
          (map fst (padData (pads_run clm ops (new_SMDPads C)))) =
        map Some [0..<pads_instanceCount (pads_run clm ops (new_SMDPads C))])"
proof (intro conjI impI)
  assume "map_of (padData s) k = None"
  then show "removePad clm k s = (False, s)" by (rule removePad_unknown)
next
  assume a: "pads_reachable C s \<and> map_of (padData s) k \<noteq> None"
  then have wf: "pads_wf s" using pads_reachable_wf by blast
  note r = removePad_known[OF wf, of k clm]
  show "fst (removePad clm k s) = True" using r(1) a by simp
  show "padData (snd (removePad clm k s)) = AList.delete k (padData s)" using r(2) a by simp
  show d: "pads_dense clm (snd (removePad clm k s))" using r(3) a by simp
  show "map (\<lambda>k'. getInstanceId k' (snd (removePad clm k s)))
          (map fst (padData (snd (removePad clm k s)))) =
        map Some [0..<pads_instanceCount (snd (removePad clm k s))]"
    by (rule pads_dense_slots[OF d])
next
  assume a: "distinct (added_ids ops)"
  show d: "pads_dense clm (pads_run clm ops (new_SMDPads C))"
    by (rule pads_run_dense[OF pads_dense_new a]) (simp add: new_SMDPads_def)
  show "map (\<lambda>k'. getInstanceId k' (pads_run clm ops (new_SMDPads C)))
          (map fst (padData (pads_run clm ops (new_SMDPads C)))) =
        map Some [0..<pads_instanceCount (pads_run clm ops (new_SMDPads C))]"
    by (rule pads_dense_slots[OF d])
qed

theorem C2_remove_rebuilds_dense_witness:
  "map_of (padData pads_ab) ''z'' = None \<and>
   removePad clm16 ''z'' pads_ab = (False, pads_ab) \<and>
   pads_reachable 2 pads_ab \<and> map_of (padData pads_ab) ''a'' \<noteq> None \<and>
   fst (removePad clm16 ''a'' pads_ab) = True \<and>
   padData (snd (removePad clm16 ''a'' pads_ab)) = [(''b'', pad_b)] \<and>
   pads_instanceCount (snd (removePad clm16 ''a'' pads_ab)) = 1 \<and>
   getInstanceId ''b'' (snd (removePad clm16 ''a'' pads_ab)) = Some 0 \<and>
   distinct (added_ids [AddPad pad_a, AddPad pad_b, RemovePad ''a'']) \<and>
   pads_dense clm16 (pads_run clm16 [AddPad pad_a, AddPad pad_b, RemovePad ''a''] (new_SMDPads 2))"
proof -
  have h1: "map_of (padData pads_ab) ''z'' = None" by (simp add: pads_ab_eval)
  have h2: "pads_reachable 2 pads_ab"
    unfolding pads_ab_def by (intro pads_reachable.intros)
  have h3: "map_of (padData pads_ab) ''a'' \<noteq> None" by (simp add: pads_ab_eval)
  have h4: "distinct (added_ids [AddPad pad_a, AddPad pad_b, RemovePad ''a''])"
    by (simp add: example_ids)
  note t = C2_remove_rebuilds_dense[of pads_ab _ clm16 2]
  have pd: "padData (snd (removePad clm16 ''a'' pads_ab)) = [(''b'', pad_b)]"
    using t[of "''a''" "[]"] h2 h3 by (simp add: pads_ab_eval)
  have cnt: "pads_instanceCount (snd (removePad clm16 ''a'' pads_ab)) = 1"
    using t[of "''a''" "[]"] h2 h3 pd by (simp add: pads_dense_iff)
  show ?thesis
    using h1 h2 h3 h4 pd cnt t[of "''z''" "[AddPad pad_a, AddPad pad_b, RemovePad ''a'']"]
      t[of "''a''" "[]"]
    by (simp add: getInstanceId_def)
qed

section \<open>C10: adding an id that is already present\<close>

text \<open>
  Claim C10.  In every state of a pad store or a hole store that is below capacity, adding an
  entity whose id is already present returns true, replaces the stored record in place (the
  keys and their order stay as they were), and still takes a new instance slot, which receives
  the entity's transform; afterwards the store holds strictly fewer records than instances.
\<close>

theorem C10_duplicate_id_add:
  "(pads_reachable C s \<and> pads_instanceCount s < pads_maxInstances s \<and>
    map_of (padData s) (pad_id p) \<noteq> None \<longrightarrow>
      fst (addPad clm p s) = True \<and>
      padData (snd (addPad clm p s)) = AList.update (pad_id p) p (padData s) \<and>
      map fst (padData (snd (addPad clm p s))) = map fst (padData s) \<and>
      map_of (padData (snd (addPad clm p s))) (pad_id p) = Some p \<and>
      pads_instanceCount (snd (addPad clm p s)) = pads_instanceCount s + 1 \<and>
      im_matrices (pads_instancedMesh (snd (addPad clm p s))) (pads_instanceCount s) =
        Some (pad_transform clm p) \<and>
      length (padData (snd (addPad clm p s))) < pads_instanceCount (snd (addPad clm p s))) \<and>
   (holes_reachable C' h \<and> holes_instanceCount h < holes_maxInstances h \<and>
    map_of (holeData h) (hole_id d) \<noteq> None \<longrightarrow>
      fst (addHole d h) = True \<and>
      holeData (snd (addHole d h)) = AList.update (hole_id d) d (holeData h) \<and>
      map fst (holeData (snd (addHole d h))) = map fst (holeData h) \<and>
      map_of (holeData (snd (addHole d h))) (hole_id d) = Some d \<and>
      holes_instanceCount (snd (addHole d h)) = holes_instanceCount h + 1 \<and>
      im_matrices (holes_instancedMesh (snd (addHole d h))) (holes_instanceCount h) =
        Some (hole_transform d) \<and>
      length (holeData (snd (addHole d h))) < holes_instanceCount (snd (addHole d h)))"
proof (intro conjI impI)
  assume a: "pads_reachable C s \<and> pads_instanceCount s < pads_maxInstances s \<and>
    map_of (padData s) (pad_id p) \<noteq> None"
  then have wf: "pads_wf s" using pads_reachable_wf by blast
  have lt: "pads_instanceCount s < pads_maxInstances s" using a by simp
  have kin: "pad_id p \<in> fst ` set (padData s)" using a by (simp add: map_of_None_iff)
  note b = addPad_below[OF lt, of clm p]
  have caps: "im_capacity (pads_instancedMesh s) = pads_maxInstances s"
    "im_capacity (pads_edgeMesh s) = pads_maxInstances s"
    using wf by (simp_all add: pads_wf_def)
  show "fst (addPad clm p s) = True" by (rule b(1))
  show "padData (snd (addPad clm p s)) = AList.update (pad_id p) p (padData s)" by (rule b(2))
  show "map fst (padData (snd (addPad clm p s))) = map fst (padData s)"
    using b(2) update_present_keys[OF kin] by simp
  show "map_of (padData (snd (addPad clm p s))) (pad_id p) = Some p"
    using b(2) by (simp add: AList.update_conv')
  show "pads_instanceCount (snd (addPad clm p s)) = pads_instanceCount s + 1"
    using b(3) by simp
  show "im_matrices (pads_instancedMesh (snd (addPad clm p s))) (pads_instanceCount s) =
        Some (pad_transform clm p)"
    using addPad_below_matrices(1)[OF lt caps, of clm p] by simp
  show "length (padData (snd (addPad clm p s))) < pads_instanceCount (snd (addPad clm p s))"
    using b(2,3) update_present_length[OF kin, of p] wf by (simp add: pads_wf_def)
next
  assume a: "holes_reachable C' h \<and> holes_instanceCount h < holes_maxInstances h \<and>
    map_of (holeData h) (hole_id d) \<noteq> None"
  then have wf: "holes_wf h" using holes_reachable_wf by blast
  have lt: "holes_instanceCount h < holes_maxInstances h" using a by simp
  have kin: "hole_id d \<in> fst ` set (holeData h)" using a by (simp add: map_of_None_iff)
  note b = addHole_below[OF lt, of d]
  have cap: "im_capacity (holes_instancedMesh h) = holes_maxInstances h"
    using wf by (simp add: holes_wf_def)
  show "fst (addHole d h) = True" by (rule b(1))
  show "holeData (snd (addHole d h)) = AList.update (hole_id d) d (holeData h)" by (rule b(2))
  show "map fst (holeData (snd (addHole d h))) = map fst (holeData h)"
    using b(2) update_present_keys[OF kin] by simp
  show "map_of (holeData (snd (addHole d h))) (hole_id d) = Some d"
    using b(2) by (simp add: AList.update_conv')
  show "holes_instanceCount (snd (addHole d h)) = holes_instanceCount h + 1"
    using b(3) by simp
  show "im_matrices (holes_instancedMesh (snd (addHole d h))) (holes_instanceCount h) =
        Some (hole_transform d)"
    using addHole_below_matrix[OF lt cap, of d] by simp
  show "length (holeData (snd (addHole d h))) < holes_instanceCount (snd (addHole d h))"
    using b(2,3) update_present_length[OF kin, of d] wf by (simp add: holes_wf_def)
qed

theorem C10_duplicate_id_add_witness:
  "pads_reachable 3 pads_one \<and> pads_instanceCount pads_one < pads_maxInstances pads_one \<and>
   map_of (padData pads_one) (pad_id pad_a2) \<noteq> None \<and>
   fst (addPad clm16 pad_a2 pads_one) = True \<and>
   padData (snd (addPad clm16 pad_a2 pads_one)) = [(''a'', pad_a2)] \<and>
   pads_instanceCount (snd (addPad clm16 pad_a2 pads_one)) = 2 \<and>
   holes_reachable 3 holes_one \<and> holes_instanceCount holes_one < holes_maxInstances holes_one \<and>
   map_of (holeData holes_one) (hole_id hole_a2) \<noteq> None \<and>
   fst (addHole hole_a2 holes_one) = True \<and>
   holeData (snd (addHole hole_a2 holes_one)) = [(''h1'', hole_a2)] \<and>
   holes_instanceCount (snd (addHole hole_a2 holes_one)) = 2"
proof -
  have h1: "pads_reachable 3 pads_one"
    unfolding pads_one_def by (intro pads_reachable.intros)
  have h2: "pads_instanceCount pads_one < pads_maxInstances pads_one"
    by (simp add: pads_one_eval)
  have h3: "map_of (padData pads_one) (pad_id pad_a2) \<noteq> None"
    by (simp add: pads_one_eval example_ids)
  have h4: "holes_reachable 3 holes_one"
    unfolding holes_one_def by (intro holes_reachable.intros)
  have h5: "holes_instanceCount holes_one < holes_maxInstances holes_one"
    by (simp add: holes_one_eval)
  have h6: "map_of (holeData holes_one) (hole_id hole_a2) \<noteq> None"
    by (simp add: holes_one_eval example_ids)
  show ?thesis
    using h1 h2 h3 h4 h5 h6
      C10_duplicate_id_add[of 3 pads_one pad_a2 clm16 3 holes_one hole_a2]
    by (simp add: pads_one_eval holes_one_eval example_ids)
qed

section \<open>C3: trace decomposition and the derived metrics\<close>












section \<open>C5: the height at which entities are placed\<close>

lemma pad_placement_height:
  assumes "pads_instanceCount s < pads_maxInstances s"
    "im_capacity (pads_instancedMesh s) = pads_maxInstances s"
  shows "placed_y (pads_instancedMesh (snd (addPad clm p s))) (pads_instanceCount s) =
         Some (if pad_layer p = Top then getTopCopperZ clm else getBottomCopperZ clm)"
  using assms
  by (simp add: placed_y_def addPad_def Let_def updateInstanceMatrix_def setMatrixAt_def
      pad_transform_def compose_def)

text \<open>
  Claim C5 says that an entity on layer \<open>top\<close> is placed at
  \<open>topZ(thickness) = thickness / 2 + clearance\<close>, for pads and for every committed trace
  segment.  \<open>addPad\<close> does read the layer offset (lemma \<open>pad_placement_height\<close>);
  \<open>addTrace\<close> does not: it is not given the \<open>CopperLayerManager\<close> at all and places every
  segment at the constant \<open>0.01\<close> or \<open>-0.01\<close>.  On the default board, 1.6 thick, the first
  segment of the top-layer trace \<open>trace_l\<close> is placed at height 0.01, where the top copper
  height is 0.81.
\<close>

theorem C5_trace_segment_height:
  "placed_y (traces_instancedMesh (snd (addTrace trace_l (new_FlatTraces 5000)))) 0 = Some 0.01 \<and>
   trace_layer trace_l = Top \<and>
   getTopCopperZ clm16 = 0.81"
  by (simp add: placed_y_def addTrace_def Let_def setMatrixAt_def new_FlatTraces_def
      new_InstancedMesh_def trace_l_def segment_transform_def make_segment_def compose_def
      getTopCopperZ_def clm16_def COPPER_OFFSET_MM_def)

section \<open>C4: the layer offsets\<close>

text \<open>
  In exact arithmetic the contract of the layer-offset calculator holds as the specification
  states it, and the separation check succeeds for every thickness.
\<close>

lemma layer_offsets_exact:
  "getTopCopperZ clm = boardThickness clm / 2 + 0.01"
  "getBottomCopperZ clm = - (boardThickness clm / 2) - 0.01"
  "getTopCopperZ clm - getBottomCopperZ clm \<ge> boardThickness clm + 2 * 0.01"
  "getBottomCopperZ clm < boardThickness clm / 2 \<or> boardThickness clm \<le> 0"
  "boardThickness clm / 2 < getTopCopperZ clm"
  "validateZSeparation clm"
  by (simp_all add: getTopCopperZ_def getBottomCopperZ_def validateZSeparation_def
      COPPER_OFFSET_MM_def Let_def) linarith

text \<open>
  Claim C4 ends: for every thickness \<open>t > 0\<close> the runtime check \<open>validateZSeparation\<close> returns
  true.  The source computes in double precision.  For the thickness \<open>0.2\<close>, the computed top
  height is the double nearest to \<open>0.11\<close>, its difference to the double \<open>0.1\<close> rounds to a
  number below the double \<open>0.01\<close>, and the check returns false.
\<close>

theorem C4_validateZSeparation_double_precision:
  "validateZSeparation_f64 \<lparr>boardThickness_f64 = fl (1 / 5)\<rparr> = False"
  by code_simp

section \<open>C6: the validation gate\<close>

text \<open>
  Claim C6 says the gate accepts a document if and only if it satisfies all the rules, one of
  which asks a path for at least two points that are pairs of numbers.  The validator tests
  that \<open>points\<close> is an array of length at least two and never looks at the entries: the
  document \<open>bad_path_document\<close>, whose path has the points \<open>[1, 2]\<close>, is accepted.
\<close>

theorem C6_gate_accepts_malformed_points:
  "validateBoardData bad_path_document = True \<and>
   validateComponentData bad_path_component = True \<and>
   path_points_rule bad_path_component = False"
  by (simp add: validateBoardData_def validateComponentData_def path_points_rule_def
      bad_path_document_def bad_path_component_def valid_layer_def startsWith_def)

text \<open>The same evaluation, read as: the gate lets through a path that breaks the points rule.\<close>

theorem C6_gate_accepts_malformed_points_witness:
  "validateBoardData bad_path_document \<and> \<not> path_points_rule bad_path_component"
  using C6_gate_accepts_malformed_points by simp

section \<open>C8: the resource ledger\<close>

lemma set_add_idem: "set_add x (set_add x xs) = set_add x xs"
  by (simp add: set_add_def)

lemma set_add_member: "x \<in> set xs \<Longrightarrow> set_add x xs = xs"
  by (simp add: set_add_def)

lemma set_set_add: "set (set_add x xs) = insert x (set xs)"
  by (auto simp: set_add_def)

lemma distinct_set_add: "distinct xs \<Longrightarrow> distinct (set_add x xs)"
  by (simp add: set_add_def)

text \<open>
  On an empty ledger \<open>disposeResources\<close> calls nothing and returns; whenever it returns, the
  ledger is empty, so a second call is such a call.
\<close>

lemma dispose_empty_ledger: "disposeResources (empty_tracker, calls) = Returned (empty_tracker, calls)"
  by (simp add: disposeResources_def empty_tracker_def Let_def)

lemma dispose_leaves_empty_ledger:
  "disposeResources (t, calls) = Returned (t', calls') \<Longrightarrow> t' = empty_tracker"
  by (auto simp: disposeResources_def empty_tracker_def Let_def split: outcome.splits)


section \<open>C9: hover exclusivity\<close>














lemma updateInstanceHoverState_returns:
  "obj_class ob \<noteq> MeshClass \<Longrightarrow>
   \<exists>s'. updateInstanceHoverState ob i b s = Returned s'"
  by (cases "obj_class ob") (simp_all add: updateInstanceHoverState_def)






















section \<open>C7: export followed by import\<close>

subsection \<open>What adds preserve\<close>













subsection \<open>Importing what was exported, one kind at a time\<close>













subsection \<open>The stores after the import\<close>









subsection \<open>The round trip\<close>






end
